theory Spec2Isabelle
  imports Complex_Main
begin

section \<open>Numbers\<close>

text \<open>
  The script computes with JavaScript numbers.  Coordinates, velocities, rates and the
  values of the benchmark functions are modelled as reals, and arithmetic is exact
  except in the blend of the crossover, where each operation is rounded as IEEE doubles
  round it (see \<open>double\<close> below): the children of a crossover are stored without a
  clamp, so that the rounding of the blend decides whether they stay within the bounds.
  Overflow is not part of this model.  A fitness field holds either
  a real or the initial \<^verbatim>\<open>Infinity\<close>; the comparison \<^verbatim>\<open><\<close> and the sort
  comparator \<^verbatim>\<open>a.fitness - b.fitness\<close> agree with the linear order below
  (\<^verbatim>\<open>Infinity - Infinity\<close> is NaN, which a comparator returns for "equal").
\<close>

datatype fit = Fin real | Infinity

instantiation fit :: linorder
begin

fun less_eq_fit :: "fit \<Rightarrow> fit \<Rightarrow> bool" where
  "less_eq_fit (Fin a) (Fin b) = (a \<le> b)"
| "less_eq_fit (Fin a) Infinity = True"
| "less_eq_fit Infinity (Fin b) = False"
| "less_eq_fit Infinity Infinity = True"

fun less_fit :: "fit \<Rightarrow> fit \<Rightarrow> bool" where
  "less_fit (Fin a) (Fin b) = (a < b)"
| "less_fit (Fin a) Infinity = True"
| "less_fit Infinity (Fin b) = False"
| "less_fit Infinity Infinity = False"

instance
proof
  fix p q r :: fit
  show "(p < q) = (p \<le> q \<and> \<not> q \<le> p)"
    by (cases p; cases q) auto
  show "p \<le> p"
    by (cases p) auto
  show "p \<le> q \<Longrightarrow> q \<le> r \<Longrightarrow> p \<le> r"
    by (cases p; cases q; cases r) auto
  show "p \<le> q \<Longrightarrow> q \<le> p \<Longrightarrow> p = q"
    by (cases p; cases q) auto
  show "p \<le> q \<or> q \<le> p"
    by (cases p; cases q) auto
qed

end

text \<open>
  The double nearest to a real, in the normal range: with \<open>2\<^sup>e \<le> |x| < 2\<^sup>e\<^sup>+\<^sup>1\<close> the doubles
  around \<open>x\<close> are the multiples of \<open>2\<^sup>e\<^sup>-\<^sup>5\<^sup>2\<close>, and \<open>x\<close> goes to the nearest one, a tie to
  the one with the even multiplier.
\<close>

definition round_even :: "real \<Rightarrow> int" where
  "round_even x =
     (let n = \<lfloor>x\<rfloor>; d = x - of_int n
      in if d < 1 / 2 then n else if 1 / 2 < d then n + 1 else if even n then n else n + 1)"

definition double :: "real \<Rightarrow> real" where
  "double x =
     (if x = 0 then 0
      else (let e = \<lfloor>log 2 \<bar>x\<bar>\<rfloor>; u = 2 powr (of_int e - 52)
            in u * of_int (round_even (x / u))))"

section \<open>Benchmark functions\<close>

text \<open>
  One entry of the object \<^verbatim>\<open>functions\<close>: \<^verbatim>\<open>bounds\<close> is the two-element array
  \<^verbatim>\<open>[lo, hi]\<close>.  \<^verbatim>\<open>Math.PI\<close> is \<open>pi\<close>, \<^verbatim>\<open>Math.E\<close> is \<open>exp 1\<close>, and
  \<^verbatim>\<open>Math.pow(b, 2)\<close> is the square.
\<close>

record benchmark =
  name :: string
  func :: "real \<Rightarrow> real \<Rightarrow> real"
  bounds :: "real \<times> real"
  globalMin :: real

definition sphere_func :: "real \<Rightarrow> real \<Rightarrow> real" where
  "sphere_func x y = x * x + y * y"

definition rastrigin_func :: "real \<Rightarrow> real \<Rightarrow> real" where
  "rastrigin_func x y =
     (let A = 10 in
      2 * A + (x * x - A * cos (2 * pi * x)) + (y * y - A * cos (2 * pi * y)))"

definition schwefel_func :: "real \<Rightarrow> real \<Rightarrow> real" where
  "schwefel_func x y =
     418.9829 * 2 - (x * sin (sqrt \<bar>x\<bar>) + y * sin (sqrt \<bar>y\<bar>))"

definition rosenbrock_func :: "real \<Rightarrow> real \<Rightarrow> real" where
  "rosenbrock_func x y = (1 - x)\<^sup>2 + 100 * (y - x * x)\<^sup>2"

definition ackley_func :: "real \<Rightarrow> real \<Rightarrow> real" where
  "ackley_func x y =
     - 20 * exp (- 0.2 * sqrt (0.5 * (x * x + y * y)))
     - exp (0.5 * (cos (2 * pi * x) + cos (2 * pi * y))) + exp 1 + 20"

definition sphere :: benchmark where
  "sphere = \<lparr>name = ''Sphere'', func = sphere_func, bounds = (- 5.12, 5.12), globalMin = 0\<rparr>"

definition rastrigin :: benchmark where
  "rastrigin =
     \<lparr>name = ''Rastrigin'', func = rastrigin_func, bounds = (- 5.12, 5.12), globalMin = 0\<rparr>"

definition schwefel :: benchmark where
  "schwefel =
     \<lparr>name = ''Schwefel'', func = schwefel_func, bounds = (- 500, 500), globalMin = 0\<rparr>"

definition rosenbrock :: benchmark where
  "rosenbrock =
     \<lparr>name = ''Rosenbrock'', func = rosenbrock_func, bounds = (- 2, 2), globalMin = 0\<rparr>"

definition ackley :: benchmark where
  "ackley =
     \<lparr>name = ''Ackley'', func = ackley_func, bounds = (- 32.768, 32.768), globalMin = 0\<rparr>"

text \<open>The object \<^verbatim>\<open>functions\<close>, as the list of its keys and values in source order.\<close>

definition functions_table :: "(string \<times> benchmark) list" where
  "functions_table =
     [(''sphere'', sphere), (''rastrigin'', rastrigin), (''schwefel'', schwefel),
      (''rosenbrock'', rosenbrock), (''ackley'', ackley)]"

text \<open>
  The point at which \<^verbatim>\<open>drawBackground\<close> draws its "Global Min marker":
  \<^verbatim>\<open>(0, 0)\<close>, replaced by \<^verbatim>\<open>(420.9687, 420.9687)\<close> when the name of the current
  function is "Schwefel".
\<close>

definition marker :: "benchmark \<Rightarrow> real \<times> real" where
  "marker f = (if name f = ''Schwefel'' then (420.9687, 420.9687) else (0, 0))"

section \<open>Utilities\<close>

text \<open>
  \<^verbatim>\<open>Math.random()\<close> is the next element of a stream of draws \<open>rand\<close>: a function
  that draws takes the index \<open>k\<close> of the next draw and returns the index after its last
  one.  \<^verbatim>\<open>random(min, max)\<close> gets its draw as first argument.
\<close>

definition random_range :: "real \<Rightarrow> real \<Rightarrow> real \<Rightarrow> real" where
  "random_range r mn mx = r * (mx - mn) + mn"

text \<open>
  \<^verbatim>\<open>Math.log\<close> is a finite number only at a positive argument (\<^verbatim>\<open>-Infinity\<close> at 0,
  NaN below) and \<^verbatim>\<open>Math.sqrt\<close> only at a non-negative one (NaN below 0).  \<open>None\<close>
  stands for a result that is NaN or infinite; a product or sum of such a value with a
  finite one, and its square root, are NaN or infinite again, so \<open>None\<close> propagates
  through \<^verbatim>\<open>gaussianRandom\<close>.  The two draws are \<open>r1\<close> (for \<open>u\<close>) and \<open>r2\<close> (for \<open>v\<close>).
\<close>

definition js_log :: "real \<Rightarrow> real option" where
  "js_log u = (if 0 < u then Some (ln u) else None)"

definition js_sqrt :: "real \<Rightarrow> real option" where
  "js_sqrt t = (if 0 \<le> t then Some (sqrt t) else None)"

definition gaussianRandom :: "real \<Rightarrow> real \<Rightarrow> real \<Rightarrow> real \<Rightarrow> real option" where
  "gaussianRandom mean stdev r1 r2 =
     (let u = 1 - r1; v = r2 in
      case js_log u of
        None \<Rightarrow> None
      | Some l \<Rightarrow>
          (case js_sqrt (- 2.0 * l) of
             None \<Rightarrow> None
           | Some q \<Rightarrow> (let z = q * cos (2.0 * pi * v) in Some (z * stdev + mean))))"

text \<open>\<^verbatim>\<open>Math.max(bounds[0], Math.min(bounds[1], v))\<close>\<close>

definition clamp :: "real \<times> real \<Rightarrow> real \<Rightarrow> real" where
  "clamp b v = max (fst b) (min (snd b) v)"

section \<open>The run-global best\<close>

text \<open>
  The globals \<^verbatim>\<open>bestGlobalFitness\<close> and \<^verbatim>\<open>bestGlobalPosition\<close> (\<open>None\<close> is
  \<^verbatim>\<open>null\<close>), and the update both \<^verbatim>\<open>evaluate\<close> methods make for one member.
\<close>

record best =
  bestGlobalFitness :: fit
  bestGlobalPosition :: "(real \<times> real) option"

definition initial_best :: best where
  "initial_best = \<lparr>bestGlobalFitness = Infinity, bestGlobalPosition = None\<rparr>"

definition update_best :: "fit \<Rightarrow> real \<times> real \<Rightarrow> best \<Rightarrow> best" where
  "update_best v p b =
     (if v < bestGlobalFitness b
      then \<lparr>bestGlobalFitness = v, bestGlobalPosition = Some p\<rparr> else b)"

section \<open>The genetic algorithm\<close>

text \<open>
  What the model does not represent is an error value: \<open>TypeError\<close> is the exception
  JavaScript throws when a property of \<^verbatim>\<open>undefined\<close> or \<^verbatim>\<open>null\<close> is read;
  \<open>NotANumber\<close> marks a coordinate that would become \<^verbatim>\<open>undefined\<close>, NaN or infinite
  (JavaScript goes on with it, the model stops).
\<close>

datatype error = TypeError | NotANumber

record individual =
  pos_x :: real
  pos_y :: real
  fitness :: fit

record ga =
  popSize :: int
  mutationRate :: real
  crossoverRate :: real
  elitism :: bool
  ga_color :: string
  population :: "individual list"
  ga_bounds :: "real \<times> real"

text \<open>The initialisation loop of the constructor: \<open>n\<close> members, two draws each.\<close>

fun init_population :: "(nat \<Rightarrow> real) \<Rightarrow> real \<times> real \<Rightarrow> nat \<Rightarrow> nat \<Rightarrow> individual list" where
  "init_population rand b 0 k = []"
| "init_population rand b (Suc n) k =
     \<lparr>pos_x = random_range (rand k) (fst b) (snd b),
      pos_y = random_range (rand (k + 1)) (fst b) (snd b),
      fitness = Infinity\<rparr> # init_population rand b n (k + 2)"

text \<open>\<^verbatim>\<open>evaluate\<close>: the \<^verbatim>\<open>forEach\<close> over the members, then the (stable) sort.\<close>

fun GA_evaluate_each :: "benchmark \<Rightarrow> individual list \<Rightarrow> best \<Rightarrow> individual list \<times> best" where
  "GA_evaluate_each f [] b = ([], b)"
| "GA_evaluate_each f (ind # inds) b =
     (let ind' = ind\<lparr>fitness := Fin (func f (pos_x ind) (pos_y ind))\<rparr>;
          b' = update_best (fitness ind') (pos_x ind', pos_y ind') b;
          (inds', b'') = GA_evaluate_each f inds b'
      in (ind' # inds', b''))"

definition GA_evaluate :: "benchmark \<Rightarrow> ga \<Rightarrow> best \<Rightarrow> ga \<times> best" where
  "GA_evaluate f g b =
     (let (pop, b') = GA_evaluate_each f (population g) b
      in (g\<lparr>population := sort_key fitness pop\<rparr>, b'))"

text \<open>
  \<^verbatim>\<open>new GA(popSize, mutationRate, crossoverRate, elitism)\<close> with \<^verbatim>\<open>currentFunction\<close>
  being \<open>f\<close>; the loop \<^verbatim>\<open>for (i = 0; i < popSize; i++)\<close> runs \<open>nat n\<close> times.
\<close>

definition GA_constructor ::
  "(nat \<Rightarrow> real) \<Rightarrow> benchmark \<Rightarrow> int \<Rightarrow> real \<Rightarrow> real \<Rightarrow> bool \<Rightarrow> nat \<Rightarrow> best \<Rightarrow> ga \<times> nat \<times> best" where
  "GA_constructor rand f n mr cr el k b =
     (let g = \<lparr>popSize = n, mutationRate = mr, crossoverRate = cr, elitism = el,
                ga_color = ''#e74c3c'',
                population = init_population rand (bounds f) (nat n) k,
                ga_bounds = bounds f\<rparr>;
          (g', b') = GA_evaluate f g b
      in (g', k + 2 * nat n, b'))"

text \<open>\<^verbatim>\<open>xs[i]\<close> is \<^verbatim>\<open>undefined\<close> outside the array.\<close>

definition index :: "'a list \<Rightarrow> int \<Rightarrow> 'a option" where
  "index xs i = (if 0 \<le> i \<and> i < int (length xs) then Some (xs ! nat i) else None)"

text \<open>
  \<^verbatim>\<open>tournamentSelect\<close>: \<open>i\<close> counts the rounds left of the three, \<open>bst\<close> is the
  variable \<^verbatim>\<open>best\<close> (\<open>None\<close> for \<^verbatim>\<open>null\<close>).  Reading \<^verbatim>\<open>ind.fitness\<close> of an
  \<^verbatim>\<open>undefined\<close> member throws.
\<close>

fun tournament ::
  "(nat \<Rightarrow> real) \<Rightarrow> ga \<Rightarrow> nat \<Rightarrow> individual option \<Rightarrow> nat \<Rightarrow> error + individual option \<times> nat" where
  "tournament rand g 0 bst k = Inr (bst, k)"
| "tournament rand g (Suc i) bst k =
     (case index (population g) \<lfloor>rand k * real_of_int (popSize g)\<rfloor> of
        None \<Rightarrow> Inl TypeError
      | Some ind \<Rightarrow>
          tournament rand g i
            (case bst of
               None \<Rightarrow> Some ind
             | Some b \<Rightarrow> if fitness ind < fitness b then Some ind else Some b)
            (k + 1))"

definition tournamentSelect :: "(nat \<Rightarrow> real) \<Rightarrow> ga \<Rightarrow> nat \<Rightarrow> error + individual \<times> nat" where
  "tournamentSelect rand g k =
     (case tournament rand g 3 None k of
        Inl e \<Rightarrow> Inl e
      | Inr (None, k') \<Rightarrow> Inl NotANumber
      | Inr (Some b, k') \<Rightarrow> Inr (b, k'))"

text \<open>One of the two blocks of \<^verbatim>\<open>mutate\<close>, on the coordinate \<open>v\<close>.\<close>

definition mutate_coordinate :: "(nat \<Rightarrow> real) \<Rightarrow> ga \<Rightarrow> real \<Rightarrow> nat \<Rightarrow> error + real \<times> nat" where
  "mutate_coordinate rand g v k =
     (let range = snd (ga_bounds g) - fst (ga_bounds g) in
      if rand k < mutationRate g then
        (case gaussianRandom 0 (range * 0.05) (rand (k + 1)) (rand (k + 2)) of
           None \<Rightarrow> Inl NotANumber
         | Some d \<Rightarrow> Inr (clamp (ga_bounds g) (v + d), k + 3))
      else Inr (v, k + 1))"

definition mutate :: "(nat \<Rightarrow> real) \<Rightarrow> ga \<Rightarrow> individual \<Rightarrow> nat \<Rightarrow> error + individual \<times> nat" where
  "mutate rand g ind k =
     (case mutate_coordinate rand g (pos_x ind) k of
        Inl e \<Rightarrow> Inl e
      | Inr (vx, k1) \<Rightarrow>
          (case mutate_coordinate rand g (pos_y ind) k1 of
             Inl e \<Rightarrow> Inl e
           | Inr (vy, k2) \<Rightarrow> Inr (ind\<lparr>pos_x := vx, pos_y := vy\<rparr>, k2)))"

text \<open>
  \<^verbatim>\<open>alpha * a + (1 - alpha) * b\<close> as the script computes it: two products, a difference
  and a sum, each rounded to a double.
\<close>

definition blend :: "real \<Rightarrow> real \<Rightarrow> real \<Rightarrow> real" where
  "blend alpha a b = double (double (alpha * a) + double (double (1 - alpha) * b))"

text \<open>The crossover block: copies of the parents, blended when the draw is below the rate.\<close>

definition crossover ::
  "(nat \<Rightarrow> real) \<Rightarrow> ga \<Rightarrow> individual \<Rightarrow> individual \<Rightarrow> nat \<Rightarrow> individual \<times> individual \<times> nat" where
  "crossover rand g p1 p2 k =
     (if rand k < crossoverRate g then
        (let alpha = rand (k + 1) in
         (p1\<lparr>pos_x := blend alpha (pos_x p1) (pos_x p2),
             pos_y := blend alpha (pos_y p1) (pos_y p2)\<rparr>,
          p2\<lparr>pos_x := blend alpha (pos_x p2) (pos_x p1),
             pos_y := blend alpha (pos_y p2) (pos_y p1)\<rparr>,
          k + 2))
      else (p1, p2, k + 1))"

text \<open>The body of the \<^verbatim>\<open>while\<close> loop of \<^verbatim>\<open>step\<close> up to the two mutated children.\<close>

definition offspring ::
  "(nat \<Rightarrow> real) \<Rightarrow> ga \<Rightarrow> nat \<Rightarrow> error + individual \<times> individual \<times> nat" where
  "offspring rand g k =
     (case tournamentSelect rand g k of
        Inl e \<Rightarrow> Inl e
      | Inr (p1, k1) \<Rightarrow>
          (case tournamentSelect rand g k1 of
             Inl e \<Rightarrow> Inl e
           | Inr (p2, k2) \<Rightarrow>
               (let (c1, c2, k3) = crossover rand g p1 p2 k2 in
                case mutate rand g c1 k3 of
                  Inl e \<Rightarrow> Inl e
                | Inr (c1', k4) \<Rightarrow>
                    (case mutate rand g c2 k4 of
                       Inl e \<Rightarrow> Inl e
                     | Inr (c2', k5) \<Rightarrow> Inr (c1', c2', k5)))))"

text \<open>The \<^verbatim>\<open>while (newPop.length < this.popSize)\<close> loop.\<close>

function breed ::
  "(nat \<Rightarrow> real) \<Rightarrow> ga \<Rightarrow> individual list \<Rightarrow> nat \<Rightarrow> error + individual list \<times> nat" where
  "breed rand g newPop k =
     (if int (length newPop) < popSize g then
        (case offspring rand g k of
           Inl e \<Rightarrow> Inl e
         | Inr (c1, c2, k') \<Rightarrow>
             breed rand g
               (if int (length (newPop @ [c1])) < popSize g
                then newPop @ [c1] @ [c2] else newPop @ [c1])
               k')
      else Inr (newPop, k))"
  by pat_completeness auto
termination
  by (relation "measure (\<lambda>(rand, g, newPop, k). nat (popSize g - int (length newPop)))") auto

text \<open>
  \<^verbatim>\<open>step\<close>.  With \<^verbatim>\<open>elitism\<close> and an empty population,
  \<^verbatim>\<open>{...this.population[0]}\<close> is an object without coordinates.
\<close>

definition GA_step ::
  "(nat \<Rightarrow> real) \<Rightarrow> benchmark \<Rightarrow> ga \<Rightarrow> nat \<Rightarrow> best \<Rightarrow> error + ga \<times> nat \<times> best" where
  "GA_step rand f g k b =
     (case (if elitism g
            then (case population g of [] \<Rightarrow> Inl NotANumber | e # _ \<Rightarrow> Inr [e])
            else Inr [])
      of
        Inl e \<Rightarrow> Inl e
      | Inr newPop \<Rightarrow>
          (case breed rand g newPop k of
             Inl e \<Rightarrow> Inl e
           | Inr (pop, k') \<Rightarrow>
               (let (g', b') = GA_evaluate f (g\<lparr>population := pop\<rparr>) b
                in Inr (g', k', b'))))"

section \<open>Particle swarm optimisation\<close>

text \<open>A particle has the fields of an individual and five more.\<close>

record particle = individual +
  vx :: real
  vy :: real
  pbestX :: real
  pbestY :: real
  pbestFit :: fit

record pso =
  swarmSize :: int
  w :: real
  c1 :: real
  c2 :: real
  pso_color :: string
  particles :: "particle list"
  pso_bounds :: "real \<times> real"

text \<open>The initialisation loop of the constructor: \<open>n\<close> particles, four draws each.\<close>

fun init_particles :: "(nat \<Rightarrow> real) \<Rightarrow> real \<times> real \<Rightarrow> nat \<Rightarrow> nat \<Rightarrow> particle list" where
  "init_particles rand b 0 k = []"
| "init_particles rand b (Suc n) k =
     (let p = \<lparr>pos_x = random_range (rand k) (fst b) (snd b),
               pos_y = random_range (rand (k + 1)) (fst b) (snd b),
               fitness = Infinity,
               vx = random_range (rand (k + 2)) (- 1) 1,
               vy = random_range (rand (k + 3)) (- 1) 1,
               pbestX = 0, pbestY = 0, pbestFit = Infinity\<rparr>
      in p\<lparr>pbestX := pos_x p, pbestY := pos_y p\<rparr> # init_particles rand b n (k + 4))"

text \<open>\<^verbatim>\<open>evaluate\<close>: fitness, personal best and global best of each particle in turn.\<close>

definition evaluate_particle :: "benchmark \<Rightarrow> particle \<Rightarrow> particle" where
  "evaluate_particle f p =
     (let p1 = p\<lparr>fitness := Fin (func f (pos_x p) (pos_y p))\<rparr>
      in if fitness p1 < pbestFit p1
         then p1\<lparr>pbestFit := fitness p1, pbestX := pos_x p1, pbestY := pos_y p1\<rparr>
         else p1)"

fun PSO_evaluate_each :: "benchmark \<Rightarrow> particle list \<Rightarrow> best \<Rightarrow> particle list \<times> best" where
  "PSO_evaluate_each f [] b = ([], b)"
| "PSO_evaluate_each f (p # ps) b =
     (let p' = evaluate_particle f p;
          b' = update_best (fitness p') (pos_x p', pos_y p') b;
          (ps', b'') = PSO_evaluate_each f ps b'
      in (p' # ps', b''))"

definition PSO_evaluate :: "benchmark \<Rightarrow> pso \<Rightarrow> best \<Rightarrow> pso \<times> best" where
  "PSO_evaluate f s b =
     (let (ps, b') = PSO_evaluate_each f (particles s) b in (s\<lparr>particles := ps\<rparr>, b'))"

definition PSO_constructor ::
  "(nat \<Rightarrow> real) \<Rightarrow> benchmark \<Rightarrow> int \<Rightarrow> real \<Rightarrow> real \<Rightarrow> real \<Rightarrow> nat \<Rightarrow> best \<Rightarrow> pso \<times> nat \<times> best" where
  "PSO_constructor rand f n w0 a1 a2 k b =
     (let s = \<lparr>swarmSize = n, w = w0, c1 = a1, c2 = a2, pso_color = ''#3498db'',
                particles = init_particles rand (bounds f) (nat n) k,
                pso_bounds = bounds f\<rparr>;
          (s', b') = PSO_evaluate f s b
      in (s', k + 4 * nat n, b'))"

text \<open>
  The body of the \<^verbatim>\<open>forEach\<close> of \<^verbatim>\<open>step\<close> for one particle, with the draws \<open>r1\<close> and
  \<open>r2\<close> and the global best position \<open>gb\<close>.
\<close>

definition move_particle :: "pso \<Rightarrow> real \<times> real \<Rightarrow> real \<Rightarrow> real \<Rightarrow> particle \<Rightarrow> particle" where
  "move_particle s gb r1 r2 p =
     (let p1 = p\<lparr>vx := w s * vx p + c1 s * r1 * (pbestX p - pos_x p)
                         + c2 s * r2 * (fst gb - pos_x p)\<rparr>;
          p2 = p1\<lparr>vy := w s * vy p1 + c1 s * r1 * (pbestY p1 - pos_y p1)
                          + c2 s * r2 * (snd gb - pos_y p1)\<rparr>;
          p3 = p2\<lparr>pos_x := pos_x p2 + vx p2\<rparr>;
          p4 = p3\<lparr>pos_y := pos_y p3 + vy p3\<rparr>;
          p5 = p4\<lparr>pos_x := clamp (pso_bounds s) (pos_x p4)\<rparr>
      in p5\<lparr>pos_y := clamp (pso_bounds s) (pos_y p5)\<rparr>)"

text \<open>
  The \<^verbatim>\<open>forEach\<close> of \<^verbatim>\<open>step\<close>; \<^verbatim>\<open>bestGlobalPosition[0]\<close> throws when the position
  is still \<^verbatim>\<open>null\<close>.
\<close>

fun move_particles ::
  "(nat \<Rightarrow> real) \<Rightarrow> pso \<Rightarrow> best \<Rightarrow> particle list \<Rightarrow> nat \<Rightarrow> error + particle list \<times> nat" where
  "move_particles rand s b [] k = Inr ([], k)"
| "move_particles rand s b (p # ps) k =
     (case bestGlobalPosition b of
        None \<Rightarrow> Inl TypeError
      | Some gb \<Rightarrow>
          (case move_particles rand s b ps (k + 2) of
             Inl e \<Rightarrow> Inl e
           | Inr (ps', k') \<Rightarrow> Inr (move_particle s gb (rand k) (rand (k + 1)) p # ps', k')))"

definition PSO_step ::
  "(nat \<Rightarrow> real) \<Rightarrow> benchmark \<Rightarrow> pso \<Rightarrow> nat \<Rightarrow> best \<Rightarrow> error + pso \<times> nat \<times> best" where
  "PSO_step rand f s k b =
     (case move_particles rand s b (particles s) k of
        Inl e \<Rightarrow> Inl e
      | Inr (ps, k') \<Rightarrow>
          (let (s', b') = PSO_evaluate f (s\<lparr>particles := ps\<rparr>) b in Inr (s', k', b')))"

section \<open>The page: run, stop, reset, log and replay\<close>

text \<open>
  A snapshot is what \<^verbatim>\<open>captureState\<close> builds: fresh \<^verbatim>\<open>{x, y}\<close> objects that nothing
  changes afterwards, so a list of pairs.  A history is a JavaScript array that grows by
  \<^verbatim>\<open>push\<close> and that several variables may reference; arrays of snapshots therefore
  live in a store \<open>arrays\<close>, addressed by numbers, and \<^verbatim>\<open>currentRunHistory\<close> and the
  \<^verbatim>\<open>history\<close> field of a logged entry hold addresses.  \<open>next_array\<close> is the first
  unused address.
\<close>

type_synonym snapshot = "(real \<times> real) list"

type_synonym addr = nat

datatype algorithm = GA ga | PSO pso

record entry =
  history :: addr
  color :: string
  functionName :: string

text \<open>The values read from the form, after \<^verbatim>\<open>parseInt\<close> and \<^verbatim>\<open>parseFloat\<close>.\<close>

record inputs =
  algorithmSelect :: string
  gaPopSize :: int
  gaMutation :: real
  gaCrossover :: real
  gaElitism :: bool
  psoSwarmSize :: int
  psoW :: real
  psoC1 :: real
  psoC2 :: real
  maxIterations :: int

text \<open>
  One call of \<^verbatim>\<open>render\<close>: the points it draws and their colour, \<open>Blank\<close> when it
  draws no population.
\<close>

datatype frame = Blank | Frame snapshot string

text \<open>
  The global variables of the script, the store of history arrays, the index \<open>draws\<close> of
  the next \<^verbatim>\<open>Math.random()\<close>, the form, and the calls of \<^verbatim>\<open>render\<close> so far.  The
  canvas, the statistics fields, the results table and the enabling of buttons are not
  modelled; \<^verbatim>\<open>requestAnimationFrame\<close> and \<^verbatim>\<open>setTimeout\<close> only decide when the next
  call of \<^verbatim>\<open>loop\<close> or \<^verbatim>\<open>replayLoop\<close> happens.
\<close>

record app =
  isRunning :: bool
  isReplaying :: bool
  currentAlgorithm :: "algorithm option"
  iteration :: nat
  global_best :: best
  executionCount :: nat
  currentRunHistory :: addr
  executionHistories :: "nat \<rightharpoonup> entry"
  currentFunction :: benchmark
  arrays :: "addr \<Rightarrow> snapshot list"
  next_array :: addr
  draws :: nat
  form :: inputs
  rendered :: "frame list"

definition positions :: "'a individual_scheme list \<Rightarrow> snapshot" where
  "positions ps = map (\<lambda>p. (pos_x p, pos_y p)) ps"

definition getPopulation :: "algorithm \<Rightarrow> snapshot" where
  "getPopulation a = (case a of GA g \<Rightarrow> positions (population g) | PSO s \<Rightarrow> positions (particles s))"

definition algorithm_color :: "algorithm \<Rightarrow> string" where
  "algorithm_color a = (case a of GA g \<Rightarrow> ga_color g | PSO s \<Rightarrow> pso_color s)"

definition algorithm_step ::
  "(nat \<Rightarrow> real) \<Rightarrow> benchmark \<Rightarrow> algorithm \<Rightarrow> nat \<Rightarrow> best \<Rightarrow> error + algorithm \<times> nat \<times> best" where
  "algorithm_step rand f a k b =
     (case a of
        GA g \<Rightarrow>
          (case GA_step rand f g k b of Inl e \<Rightarrow> Inl e | Inr (g', k', b') \<Rightarrow> Inr (GA g', k', b'))
      | PSO s \<Rightarrow>
          (case PSO_step rand f s k b of Inl e \<Rightarrow> Inl e | Inr (s', k', b') \<Rightarrow> Inr (PSO s', k', b')))"

definition captureState :: "app \<Rightarrow> snapshot" where
  "captureState s = (case currentAlgorithm s of None \<Rightarrow> [] | Some a \<Rightarrow> getPopulation a)"

text \<open>\<^verbatim>\<open>render()\<close> and \<^verbatim>\<open>render(populationOverride, colorOverride)\<close>.\<close>

definition render :: "(snapshot \<times> string) option \<Rightarrow> app \<Rightarrow> app" where
  "render override s =
     (let fr = (case override of
                  Some (pop, col) \<Rightarrow> Frame pop (if col = [] then ''red'' else col)
                | None \<Rightarrow>
                    (case currentAlgorithm s of
                       Some a \<Rightarrow> Frame (getPopulation a) (algorithm_color a)
                     | None \<Rightarrow> Blank))
      in s\<lparr>rendered := rendered s @ [fr]\<rparr>)"

text \<open>\<^verbatim>\<open>logResult\<close>: the entry stores the reference \<^verbatim>\<open>currentRunHistory\<close>.\<close>

definition logResult :: "app \<Rightarrow> error + app" where
  "logResult s =
     (let s1 = s\<lparr>executionCount := executionCount s + 1\<rparr> in
      case currentAlgorithm s1 of
        None \<Rightarrow> Inl TypeError
      | Some a \<Rightarrow>
          Inr (s1\<lparr>executionHistories := (executionHistories s1)
                 (executionCount s1 \<mapsto>
                    \<lparr>history = currentRunHistory s1, color = algorithm_color a,
                     functionName = name (currentFunction s1)\<rparr>)\<rparr>))"

definition stopSimulation :: "bool \<Rightarrow> app \<Rightarrow> error + app" where
  "stopSimulation shouldLog s =
     (if isReplaying s then Inr (s\<lparr>isReplaying := False\<rparr>)
      else (let s1 = s\<lparr>isRunning := False\<rparr> in
            if shouldLog \<and> iteration s1 > 0 then logResult s1 else Inr s1))"

text \<open>
  \<^verbatim>\<open>resetSimulation\<close>: \<^verbatim>\<open>stopSimulation(false)\<close> cannot fail, since it does not log.
  \<^verbatim>\<open>currentRunHistory = []\<close> makes a new array.
\<close>

definition resetSimulation :: "app \<Rightarrow> app" where
  "resetSimulation s =
     (let s1 = (if isReplaying s then s\<lparr>isReplaying := False\<rparr> else s\<lparr>isRunning := False\<rparr>);
          s2 = s1\<lparr>currentAlgorithm := None, iteration := 0, global_best := initial_best,
                  currentRunHistory := next_array s1,
                  arrays := (arrays s1)(next_array s1 := []),
                  next_array := next_array s1 + 1\<rparr>
      in render None s2)"

text \<open>\<^verbatim>\<open>loop\<close>: one call; the next one is scheduled unless the run was stopped.\<close>

definition loop :: "(nat \<Rightarrow> real) \<Rightarrow> app \<Rightarrow> error + app" where
  "loop rand s =
     (if \<not> isRunning s then Inr s
      else
        (case currentAlgorithm s of
           None \<Rightarrow> Inl TypeError
         | Some a \<Rightarrow>
             (case algorithm_step rand (currentFunction s) a (draws s) (global_best s) of
                Inl e \<Rightarrow> Inl e
              | Inr (a', k', b') \<Rightarrow>
                  (let s1 = s\<lparr>currentAlgorithm := Some a', draws := k', global_best := b',
                              iteration := iteration s + 1\<rparr>;
                       s2 = s1\<lparr>arrays := (arrays s1)
                              (currentRunHistory s1 :=
                                 arrays s1 (currentRunHistory s1) @ [captureState s1])\<rparr>;
                       s3 = render None s2;
                       maxIter = maxIterations (form s3)
                   in if maxIter > 0 \<and> int (iteration s3) \<ge> maxIter
                      then stopSimulation True s3 else Inr s3))))"

text \<open>
  \<^verbatim>\<open>startSimulation\<close>: a fresh start when there is no algorithm, a resumption of the
  stopped one otherwise; both end in a first call of \<^verbatim>\<open>loop\<close>.
\<close>

definition startSimulation :: "(nat \<Rightarrow> real) \<Rightarrow> app \<Rightarrow> error + app" where
  "startSimulation rand s =
     (if isRunning s \<or> isReplaying s then Inr s
      else
        (let algoType = algorithmSelect (form s);
             s3 = (case currentAlgorithm s of
                     Some a \<Rightarrow> s
                   | None \<Rightarrow>
                       (let s1 = resetSimulation s;
                            (a, k', b') =
                              (if algoType = ''ga'' then
                                 (let (g, k', b') =
                                        GA_constructor rand (currentFunction s1)
                                          (gaPopSize (form s1)) (gaMutation (form s1))
                                          (gaCrossover (form s1)) (gaElitism (form s1))
                                          (draws s1) (global_best s1)
                                  in (GA g, k', b'))
                               else
                                 (let (p, k', b') =
                                        PSO_constructor rand (currentFunction s1)
                                          (psoSwarmSize (form s1)) (psoW (form s1))
                                          (psoC1 (form s1)) (psoC2 (form s1))
                                          (draws s1) (global_best s1)
                                  in (PSO p, k', b')));
                            s2 = s1\<lparr>currentAlgorithm := Some a, draws := k', global_best := b'\<rparr>
                        in s2\<lparr>currentRunHistory := next_array s2,
                              arrays := (arrays s2)(next_array s2 := [captureState s2]),
                              next_array := next_array s2 + 1\<rparr>))
         in loop rand (s3\<lparr>isRunning := True\<rparr>)))"

text \<open>
  \<^verbatim>\<open>replayLoop(history, color)\<close>: one call.  \<open>h\<close> is the array reference and \<open>col\<close> the
  colour that the scheduled closure passes on unchanged.
\<close>

definition replayLoop :: "addr \<Rightarrow> string \<Rightarrow> app \<Rightarrow> app" where
  "replayLoop h col s =
     (if \<not> isReplaying s then s
      else if iteration s < length (arrays s h) then
        (let pop = arrays s h ! iteration s;
             s1 = render (Some (pop, col)) s
         in s1\<lparr>iteration := iteration s1 + 1\<rparr>)
      else s\<lparr>isReplaying := False\<rparr>)"

text \<open>The search \<^verbatim>\<open>for (let key in functions)\<close> for the function of a given name.\<close>

fun find_function :: "(string \<times> benchmark) list \<Rightarrow> string \<Rightarrow> benchmark option" where
  "find_function [] n = None"
| "find_function ((key, f) # fs) n = (if name f = n then Some f else find_function fs n)"

definition startReplay :: "nat \<Rightarrow> app \<Rightarrow> app" where
  "startReplay i s =
     (if isRunning s \<or> isReplaying s then s
      else
        (case executionHistories s i of
           None \<Rightarrow> s
         | Some d \<Rightarrow>
             (let s1 = s\<lparr>isReplaying := True, iteration := 0\<rparr>;
                  s2 = (if name (currentFunction s1) \<noteq> functionName d then
                          (case find_function functions_table (functionName d) of
                             Some f \<Rightarrow> s1\<lparr>currentFunction := f\<rparr>
                           | None \<Rightarrow> s1)
                        else s1)
              in replayLoop (history d) (color d) s2)))"

text \<open>
  The \<^verbatim>\<open>change\<close> handler of the function selector, for the selected key:
  \<^verbatim>\<open>currentFunction = functions[key]\<close>, then \<^verbatim>\<open>drawBackground()\<close>, which throws when
  the key names no function, then \<^verbatim>\<open>resetSimulation()\<close>.
\<close>

definition selectFunction :: "string \<Rightarrow> app \<Rightarrow> error + app" where
  "selectFunction key s =
     (case map_of functions_table key of
        None \<Rightarrow> Inl TypeError
      | Some f \<Rightarrow> Inr (resetSimulation (s\<lparr>currentFunction := f\<rparr>)))"

text \<open>The state after the script has loaded.\<close>

definition initial_app :: "inputs \<Rightarrow> app" where
  "initial_app i =
     \<lparr>isRunning = False, isReplaying = False, currentAlgorithm = None, iteration = 0,
      global_best = initial_best, executionCount = 0, currentRunHistory = 0,
      executionHistories = Map.empty, currentFunction = sphere,
      arrays = (\<lambda>a. []), next_array = 1, draws = 0, form = i,
      rendered = [Blank]\<rparr>"

section \<open>Runs of the optimisers\<close>

text \<open>
  The optimiser after its construction and \<open>m\<close> calls of \<^verbatim>\<open>step\<close>, for a fixed current
  function, together with the index of the next draw and the run-global best.
\<close>

fun GA_steps ::
  "(nat \<Rightarrow> real) \<Rightarrow> benchmark \<Rightarrow> nat \<Rightarrow> ga \<times> nat \<times> best \<Rightarrow> error + ga \<times> nat \<times> best" where
  "GA_steps rand f 0 c = Inr c"
| "GA_steps rand f (Suc m) c =
     (case GA_steps rand f m c of
        Inl e \<Rightarrow> Inl e
      | Inr (g, k, b) \<Rightarrow> GA_step rand f g k b)"

fun PSO_steps ::
  "(nat \<Rightarrow> real) \<Rightarrow> benchmark \<Rightarrow> nat \<Rightarrow> pso \<times> nat \<times> best \<Rightarrow> error + pso \<times> nat \<times> best" where
  "PSO_steps rand f 0 c = Inr c"
| "PSO_steps rand f (Suc m) c =
     (case PSO_steps rand f m c of
        Inl e \<Rightarrow> Inl e
      | Inr (s, k, b) \<Rightarrow> PSO_step rand f s k b)"

text \<open>A point within the square \<open>[lo, hi] \<times> [lo, hi]\<close> of the bounds \<open>b = (lo, hi)\<close>.\<close>

definition inside :: "real \<times> real \<Rightarrow> 'a individual_scheme \<Rightarrow> bool" where
  "inside b p =
     (fst b \<le> pos_x p \<and> pos_x p \<le> snd b \<and> fst b \<le> pos_y p \<and> pos_y p \<le> snd b)"

text \<open>A result chained into the next call, as a sequence of statements that may throw.\<close>

definition and_then :: "error + 'a \<Rightarrow> ('a \<Rightarrow> error + 'b) \<Rightarrow> error + 'b" where
  "and_then r f = (case r of Inl e \<Rightarrow> Inl e | Inr a \<Rightarrow> f a)"

text \<open>The history that the log holds under an id, in the state a call returned.\<close>

definition logged_history :: "nat \<Rightarrow> error + app \<Rightarrow> snapshot list option" where
  "logged_history i r =
     (case r of
        Inl e \<Rightarrow> None
      | Inr s \<Rightarrow> (case executionHistories s i of None \<Rightarrow> None | Some d \<Rightarrow> Some (arrays s (history d))))"

section \<open>Invariants of the optimisers\<close>

text \<open>
  What holds of a genetic optimiser after each \<^verbatim>\<open>evaluate\<close> on the function \<open>f\<close>, and
  of a swarm together with the run-global best.
\<close>

definition GA_invariant :: "benchmark \<Rightarrow> ga \<Rightarrow> bool" where
  "GA_invariant f g =
     (length (population g) = nat (popSize g) \<and> ga_bounds g = bounds f \<and>
      sorted (map fitness (population g)) \<and>
      list_all (\<lambda>p. fitness p = Fin (func f (pos_x p) (pos_y p))) (population g))"

definition best_defined :: "best \<Rightarrow> bool" where
  "best_defined b = (bestGlobalFitness b = Infinity \<or> bestGlobalPosition b \<noteq> None)"

definition PSO_invariant :: "benchmark \<Rightarrow> pso \<Rightarrow> best \<Rightarrow> bool" where
  "PSO_invariant f s b =
     (pso_bounds s = bounds f \<and> list_all (inside (bounds f)) (particles s) \<and>
      (particles s \<noteq> [] \<longrightarrow> bestGlobalPosition b \<noteq> None))"

section \<open>Example inputs\<close>

text \<open>
  A form, a stream of draws in \<open>(0, 1)\<close>, and the optimisers they give on the sphere
  function.
\<close>

definition example_form :: inputs where
  "example_form = \<lparr>algorithmSelect = ''pso'', gaPopSize = 50, gaMutation = 0.1, gaCrossover = 0.8,
             gaElitism = True, psoSwarmSize = 2, psoW = 0.7, psoC1 = 1.5, psoC2 = 1.5,
             maxIterations = 0\<rparr>"

definition example_draws :: "nat \<Rightarrow> real" where
  "example_draws i = 1 / (real i + 2)"

definition example_ga :: ga where
  "example_ga = fst (GA_constructor example_draws sphere 2 0.1 0.8 True 0 initial_best)"

definition example_pso :: pso where
  "example_pso = fst (PSO_constructor example_draws sphere 2 0.7 1.5 1.5 0 initial_best)"

text \<open>The page after Run and Stop on the example form, and after a second Run.\<close>

definition example_stopped :: "error + app" where
  "example_stopped =
     and_then (startSimulation example_draws (initial_app example_form)) (stopSimulation True)"

definition example_resumed :: "error + app" where
  "example_resumed = and_then example_stopped (startSimulation example_draws)"

text \<open>
  A genetic optimiser on the sphere function whose two members sit in the corner
  \<open>(hi, hi)\<close> of the bounds, \<open>hi\<close> being the double nearest to 5.12, which is where
  the clamp of a mutation puts a coordinate that went beyond it; and a stream of draws
  under which the first pair of children is blended with
  \<open>alpha = 0.9097033100117902\<close> and no mutation fires.
\<close>

definition overshoot_draws :: "nat \<Rightarrow> real" where
  "overshoot_draws i =
     (if i = 6 then 1 / 4 else if i = 7 then 4096939487986805 / 2 ^ 52 else 1 / 2)"

definition overshoot_ga :: ga where
  "overshoot_ga =
     \<lparr>popSize = 2, mutationRate = 0.1, crossoverRate = 0.8, elitism = False,
      ga_color = ''#e74c3c'',
      population =
        [\<lparr>pos_x = double 5.12, pos_y = double 5.12,
          fitness = Fin (func sphere (double 5.12) (double 5.12))\<rparr>,
         \<lparr>pos_x = double 5.12, pos_y = double 5.12,
          fitness = Fin (func sphere (double 5.12) (double 5.12))\<rparr>],
      ga_bounds = bounds sphere\<rparr>"

definition overshoot_best :: best where
  "overshoot_best =
     \<lparr>bestGlobalFitness = Fin (func sphere (double 5.12) (double 5.12)),
      bestGlobalPosition = Some (double 5.12, double 5.12)\<rparr>"

text \<open>
  A stream of draws that takes sixteen values in turn, and a form that asks for a genetic
  optimiser of two members with elitism, in which neither crossover nor mutation fires.
\<close>

definition varied_draws :: "nat \<Rightarrow> real" where
  "varied_draws i = real ((i + 10) mod 16) / 16"

definition elitist_form :: inputs where
  "elitist_form =
     \<lparr>algorithmSelect = ''ga'', gaPopSize = 2, gaMutation = 0, gaCrossover = 0,
      gaElitism = True, psoSwarmSize = 30, psoW = 0.7, psoC1 = 1.5, psoC2 = 1.5,
      maxIterations = 0\<rparr>"

text \<open>The optimiser of that form with the bounds \<open>b\<close> and the population \<open>pop\<close>.\<close>

definition elitist_ga :: "real \<times> real \<Rightarrow> individual list \<Rightarrow> ga" where
  "elitist_ga b pop =
     \<lparr>popSize = 2, mutationRate = 0, crossoverRate = 0, elitism = True,
      ga_color = ''#e74c3c'', population = pop, ga_bounds = b\<rparr>"

text \<open>
  The page after these events: Rosenbrock is selected, Run, Stop (the run is logged
  under id 1), Sphere is selected, Run, Stop (logged under id 2; the optimiser is kept).
  Then: Replay of the entry 1, Stop, and Run again, which resumes the kept optimiser.
\<close>

definition elitist_stopped :: "error + app" where
  "elitist_stopped =
     and_then (and_then (and_then (and_then (and_then
       (selectFunction ''rosenbrock'' (initial_app elitist_form))
       (startSimulation varied_draws)) (stopSimulation True))
       (selectFunction ''sphere''))
       (startSimulation varied_draws)) (stopSimulation True)"

definition elitist_resumed :: "error + app" where
  "elitist_resumed =
     and_then (and_then (and_then elitist_stopped
       (\<lambda>s. Inr (startReplay 1 s))) (stopSimulation True))
       (startSimulation varied_draws)"

text \<open>The genetic optimiser of the page in the state a call returned, and its members.\<close>

definition optimiser :: "error + app \<Rightarrow> ga option" where
  "optimiser r =
     (case r of
        Inl e \<Rightarrow> None
      | Inr s \<Rightarrow> (case currentAlgorithm s of Some (GA g) \<Rightarrow> Some g | _ \<Rightarrow> None))"

definition members :: "error + app \<Rightarrow> individual list" where
  "members r = (case optimiser r of None \<Rightarrow> [] | Some g \<Rightarrow> population g)"

section \<open>The validation that the specification describes\<close>

text \<open>
  Section 4.2 and section 7 of the specification, in its words: creating a genetic
  optimiser fails with \<open>InvalidConfiguration\<close> when the population size is below 2 or a
  rate lies outside \<open>[0, 1]\<close>.  The script has no such check; this definition is what the
  constructor is compared with.
\<close>

datatype spec_result = InvalidConfiguration | Constructed

definition spec_createOptimizer_ga :: "int \<Rightarrow> real \<Rightarrow> real \<Rightarrow> spec_result" where
  "spec_createOptimizer_ga n mr cr =
     (if n < 2 \<or> mr < 0 \<or> 1 < mr \<or> cr < 0 \<or> 1 < cr then InvalidConfiguration else Constructed)"

section \<open>Evaluation and the genetic algorithm, step by step\<close>

declare breed.simps [simp del]

lemma update_best_le: "bestGlobalFitness (update_best v p b) \<le> bestGlobalFitness b"
  by (auto simp: update_best_def)

lemma GA_evaluate_each_map:
  "fst (GA_evaluate_each f inds b) =
   map (\<lambda>ind. ind\<lparr>fitness := Fin (func f (pos_x ind) (pos_y ind))\<rparr>) inds"
  by (induction inds arbitrary: b) (simp_all add: Let_def case_prod_beta)

lemma GA_evaluate_each_le:
  "bestGlobalFitness (snd (GA_evaluate_each f inds b)) \<le> bestGlobalFitness b"
proof (induction inds arbitrary: b)
  case Nil
  then show ?case by simp
next
  case (Cons ind inds)
  have "bestGlobalFitness (snd (GA_evaluate_each f (ind # inds) b))
        \<le> bestGlobalFitness (update_best (Fin (func f (pos_x ind) (pos_y ind))) (pos_x ind, pos_y ind) b)"
    using Cons.IH by (simp add: Let_def case_prod_beta)
  then show ?case
    using update_best_le order_trans by blast
qed

lemma GA_evaluate_population:
  "population (fst (GA_evaluate f g b)) =
   sort_key fitness (map (\<lambda>ind. ind\<lparr>fitness := Fin (func f (pos_x ind) (pos_y ind))\<rparr>) (population g))"
  using GA_evaluate_each_map [of f "population g" b]
  by (simp add: GA_evaluate_def case_prod_beta)

lemma GA_evaluate_fields:
  "popSize (fst (GA_evaluate f g b)) = popSize g"
  "mutationRate (fst (GA_evaluate f g b)) = mutationRate g"
  "crossoverRate (fst (GA_evaluate f g b)) = crossoverRate g"
  "elitism (fst (GA_evaluate f g b)) = elitism g"
  "ga_bounds (fst (GA_evaluate f g b)) = ga_bounds g"
  by (simp_all add: GA_evaluate_def case_prod_beta)

lemma GA_evaluate_best_le:
  "bestGlobalFitness (snd (GA_evaluate f g b)) \<le> bestGlobalFitness b"
  using GA_evaluate_each_le [of f "population g" b]
  by (simp add: GA_evaluate_def case_prod_beta)

lemma GA_evaluate_length:
  "length (population (fst (GA_evaluate f g b))) = length (population g)"
  by (simp add: GA_evaluate_population)

lemma GA_evaluate_sorted:
  "sorted (map fitness (population (fst (GA_evaluate f g b))))"
  by (simp add: GA_evaluate_population)

lemma GA_evaluate_fresh:
  "\<forall>p \<in> set (population (fst (GA_evaluate f g b))). fitness p = Fin (func f (pos_x p) (pos_y p))"
  by (auto simp: GA_evaluate_population)

lemma init_population_length: "length (init_population rand bd n k) = n"
  by (induction n arbitrary: k) auto

lemma random_range_bounds:
  "0 \<le> r \<Longrightarrow> r < 1 \<Longrightarrow> lo \<le> hi \<Longrightarrow> lo \<le> random_range r lo hi \<and> random_range r lo hi \<le> hi"
proof -
  assume r: "0 \<le> r" "r < 1" and b: "lo \<le> hi"
  have "0 \<le> r * (hi - lo)" using r b by simp
  moreover have "r * (hi - lo) \<le> 1 * (hi - lo)"
    using r b by (intro mult_right_mono) auto
  ultimately show ?thesis by (simp add: random_range_def)
qed

lemma index_draw:
  assumes "0 \<le> r" "r < 1" "length xs = nat n" "1 \<le> n"
  shows "\<exists>x \<in> set xs. index xs \<lfloor>r * real_of_int n\<rfloor> = Some x"
proof -
  have "0 \<le> r * real_of_int n" using assms by simp
  then have lo: "0 \<le> \<lfloor>r * real_of_int n\<rfloor>" by simp
  have "r * real_of_int n < 1 * real_of_int n"
    using assms by (intro mult_strict_right_mono) auto
  then have hi: "\<lfloor>r * real_of_int n\<rfloor> < n" by (simp add: floor_less_iff)
  have "nat \<lfloor>r * real_of_int n\<rfloor> < nat n" using lo hi by linarith
  then have "nat \<lfloor>r * real_of_int n\<rfloor> < length xs" using assms(3) by simp
  then have mem: "xs ! nat \<lfloor>r * real_of_int n\<rfloor> \<in> set xs" by (rule nth_mem)
  have "\<lfloor>r * real_of_int n\<rfloor> < int (length xs)" using hi assms(3,4) by simp
  then have "index xs \<lfloor>r * real_of_int n\<rfloor> = Some (xs ! nat \<lfloor>r * real_of_int n\<rfloor>)"
    using lo unfolding index_def by simp
  then show ?thesis using mem by blast
qed

lemma tournament_total:
  assumes "\<forall>i. 0 \<le> rand i \<and> rand i < 1" "length (population g) = nat (popSize g)"
    "1 \<le> popSize g" "\<forall>b. bst = Some b \<longrightarrow> b \<in> set (population g)" "0 < i \<or> bst \<noteq> None"
  shows "\<exists>p \<in> set (population g). tournament rand g i bst k = Inr (Some p, k + i)"
  using assms(4,5)
proof (induction i arbitrary: bst k)
  case 0
  then show ?case by auto
next
  case (Suc i)
  obtain ind where ind: "ind \<in> set (population g)"
    "index (population g) \<lfloor>rand k * real_of_int (popSize g)\<rfloor> = Some ind"
    using index_draw [of "rand k" "population g" "popSize g"] assms(1-3) by blast
  define bst' where "bst' = (case bst of None \<Rightarrow> Some ind
             | Some b \<Rightarrow> if fitness ind < fitness b then Some ind else Some b)"
  have "\<forall>b. bst' = Some b \<longrightarrow> b \<in> set (population g)" "bst' \<noteq> None"
    using Suc.prems ind by (auto simp: bst'_def split: option.splits)
  then obtain p where "p \<in> set (population g)" "tournament rand g i bst' (k + 1) = Inr (Some p, k + 1 + i)"
    using Suc.IH [of bst' "k + 1"] by blast
  then show ?case using ind by (auto simp: bst'_def)
qed

lemma tournamentSelect_total:
  assumes "\<forall>i. 0 \<le> rand i \<and> rand i < 1" "length (population g) = nat (popSize g)"
    "1 \<le> popSize g"
  shows "\<exists>p \<in> set (population g). tournamentSelect rand g k = Inr (p, k + 3)"
  using tournament_total [OF assms, of None 3 k] by (auto simp: tournamentSelect_def)

lemma gaussianRandom_finite:
  assumes "0 \<le> r1" "r1 < 1"
  shows "\<exists>z. gaussianRandom mean stdev r1 r2 = Some z"
proof -
  have u: "0 < 1 - r1" "1 - r1 \<le> 1" using assms by auto
  then have "ln (1 - r1) \<le> 0" by simp
  then have "0 \<le> - 2.0 * ln (1 - r1)" by simp
  then show ?thesis using u by (simp add: gaussianRandom_def js_log_def js_sqrt_def Let_def)
qed

lemma clamp_bounds: "fst bd \<le> snd bd \<Longrightarrow> fst bd \<le> clamp bd v \<and> clamp bd v \<le> snd bd"
  by (auto simp: clamp_def)

lemma mutate_coordinate_total:
  assumes "\<forall>i. 0 \<le> rand i \<and> rand i < 1"
  shows "\<exists>v' k'. mutate_coordinate rand g v k = Inr (v', k')"
proof (cases "rand k < mutationRate g")
  case True
  obtain d where "gaussianRandom 0 ((snd (ga_bounds g) - fst (ga_bounds g)) * 0.05) (rand (k + 1)) (rand (k + 2)) = Some d"
    using gaussianRandom_finite assms(1) by blast
  then show ?thesis using True by (simp add: mutate_coordinate_def Let_def)
next
  case False
  then show ?thesis by (simp add: mutate_coordinate_def Let_def)
qed

lemma mutate_total:
  assumes "\<forall>i. 0 \<le> rand i \<and> rand i < 1"
  shows "\<exists>ind' k'. mutate rand g ind k = Inr (ind', k')"
proof -
  obtain v1 k1 where 1: "mutate_coordinate rand g (pos_x ind) k = Inr (v1, k1)"
    using mutate_coordinate_total [OF assms, of g "pos_x ind" k] by blast
  obtain v2 k2 where 2: "mutate_coordinate rand g (pos_y ind) k1 = Inr (v2, k2)"
    using mutate_coordinate_total [OF assms, of g "pos_y ind" k1] by blast
  show ?thesis using 1 2 by (simp add: mutate_def)
qed

lemma offspring_total:
  assumes "\<forall>i. 0 \<le> rand i \<and> rand i < 1" "length (population g) = nat (popSize g)"
    "1 \<le> popSize g"
  shows "\<exists>q1 q2 k'. offspring rand g k = Inr (q1, q2, k')"
proof -
  obtain p1 where p1: "tournamentSelect rand g k = Inr (p1, k + 3)"
    using tournamentSelect_total [OF assms(1-3)] by blast
  obtain p2 where p2: "tournamentSelect rand g (k + 3) = Inr (p2, k + 3 + 3)"
    using tournamentSelect_total [OF assms(1-3)] by blast
  obtain x1 x2 k3 where x: "crossover rand g p1 p2 (k + 3 + 3) = (x1, x2, k3)"
    by (metis prod_cases3)
  obtain q1 k4 where q1: "mutate rand g x1 k3 = Inr (q1, k4)"
    using mutate_total [OF assms(1)] by blast
  obtain q2 k5 where q2: "mutate rand g x2 k4 = Inr (q2, k5)"
    using mutate_total [OF assms(1)] by blast
  show ?thesis using p1 p2 x q1 q2 by (simp add: offspring_def)
qed

lemma breed_total:
  assumes "\<forall>i. 0 \<le> rand i \<and> rand i < 1" "length (population g) = nat (popSize g)"
  shows "int (length newPop) \<le> popSize g \<Longrightarrow>
     \<exists>pop k'. breed rand g newPop k = Inr (pop, k') \<and> int (length pop) = popSize g \<and>
        take (length newPop) pop = newPop"
proof (induction "nat (popSize g - int (length newPop))" arbitrary: newPop k rule: less_induct)
  case less
  show ?case
  proof (cases "int (length newPop) < popSize g")
    case False
    then show ?thesis using less.prems by (subst breed.simps) simp
  next
    case True
    then have ps: "1 \<le> popSize g" by linarith
    obtain q1 q2 k' where o: "offspring rand g k = Inr (q1, q2, k')"
      using offspring_total [OF assms(1,2) ps] by blast
    define next_pop where
      "next_pop = (if int (length (newPop @ [q1])) < popSize g then newPop @ [q1] @ [q2] else newPop @ [q1])"
    have len: "int (length next_pop) \<le> popSize g" "length newPop < length next_pop"
      using True by (auto simp: next_pop_def)
    have "nat (popSize g - int (length next_pop)) < nat (popSize g - int (length newPop))"
      using len True by linarith
    then obtain pop k'' where r: "breed rand g next_pop k' = Inr (pop, k'')"
      "int (length pop) = popSize g" "take (length next_pop) pop = next_pop"
      using less.hyps [of next_pop k'] len by blast
    have "take (length newPop) (take (length next_pop) pop) = take (length newPop) next_pop"
      using r(3) by simp
    then have "take (length newPop) pop = newPop"
      using len(2) by (simp add: next_pop_def min_def split: if_splits)
    moreover have "breed rand g newPop k = breed rand g next_pop k'"
      using True o(1) by (subst breed.simps) (simp add: next_pop_def)
    ultimately show ?thesis using r by simp
  qed
qed

lemma GA_step_total:
  assumes "\<forall>i. 0 \<le> rand i \<and> rand i < 1" "length (population g) = nat (popSize g)"
    "1 \<le> popSize g"
  shows "\<exists>g' k' b'. GA_step rand f g k b = Inr (g', k', b') \<and>
     length (population g') = nat (popSize g') \<and> popSize g' = popSize g \<and>
     ga_bounds g' = ga_bounds g \<and> elitism g' = elitism g \<and>
     sorted (map fitness (population g')) \<and>
     (\<forall>p \<in> set (population g'). fitness p = Fin (func f (pos_x p) (pos_y p))) \<and>
     bestGlobalFitness b' \<le> bestGlobalFitness b \<and>
     (elitism g \<longrightarrow> (\<exists>p \<in> set (population g'). pos_x p = pos_x (hd (population g)) \<and> pos_y p = pos_y (hd (population g))))"
proof -
  obtain e es where pop: "population g = e # es"
    using assms(2,3) by (cases "population g") auto
  define start where "start = (if elitism g then [e] else [])"
  have s: "int (length start) \<le> popSize g"
    using assms(3) by (auto simp: start_def)
  obtain newp k' where br: "breed rand g start k = Inr (newp, k')" "int (length newp) = popSize g"
    "take (length start) newp = start"
    using breed_total [OF assms(1,2) s, of k] by blast
  define r where "r = GA_evaluate f (g\<lparr>population := newp\<rparr>) b"
  have step: "GA_step rand f g k b = Inr (fst r, k', snd r)"
    using br(1) pop by (cases "elitism g") (simp_all add: GA_step_def start_def r_def case_prod_beta)
  have el: "elitism g \<longrightarrow> e \<in> set newp"
  proof
    assume "elitism g"
    then have "take 1 newp = [e]" using br(3) by (simp add: start_def)
    then show "e \<in> set newp" by (metis in_set_takeD list.set_intros(1))
  qed
  have "elitism g \<longrightarrow> (\<exists>p \<in> set (population (fst r)). pos_x p = pos_x e \<and> pos_y p = pos_y e)"
    using el by (force simp: r_def GA_evaluate_population)
  then show ?thesis
    using step br(2) pop
    by (simp add: r_def GA_evaluate_fields GA_evaluate_length GA_evaluate_sorted
        GA_evaluate_fresh GA_evaluate_best_le)
qed

lemma GA_constructor_invariant:
  "GA_invariant f (fst (GA_constructor rand f n mr cr el k b)) \<and>
   popSize (fst (GA_constructor rand f n mr cr el k b)) = n \<and>
   elitism (fst (GA_constructor rand f n mr cr el k b)) = el"
proof -
  define g where "g = \<lparr>popSize = n, mutationRate = mr, crossoverRate = cr, elitism = el,
                ga_color = ''#e74c3c'',
                population = init_population rand (bounds f) (nat n) k,
                ga_bounds = bounds f\<rparr>"
  have c: "fst (GA_constructor rand f n mr cr el k b) = fst (GA_evaluate f g b)"
    by (simp add: GA_constructor_def g_def Let_def case_prod_beta)
  show ?thesis
    unfolding c GA_invariant_def list_all_iff
    using GA_evaluate_fresh [of f g b]
    by (simp add: GA_evaluate_fields GA_evaluate_length GA_evaluate_sorted)
       (simp add: g_def init_population_length)
qed

lemma GA_step_invariant:
  assumes "\<forall>i. 0 \<le> rand i \<and> rand i < 1" "GA_invariant f g" "1 \<le> popSize g"
  shows "\<exists>g' k' b'. GA_step rand f g k b = Inr (g', k', b') \<and> GA_invariant f g' \<and>
     popSize g' = popSize g \<and> elitism g' = elitism g \<and>
     bestGlobalFitness b' \<le> bestGlobalFitness b \<and>
     (elitism g \<longrightarrow> (\<exists>p \<in> set (population g'). fitness p = fitness (hd (population g))))"
proof -
  have i: "length (population g) = nat (popSize g)"
    using assms(2) by (simp_all add: GA_invariant_def)
  obtain g' k' b' where s: "GA_step rand f g k b = Inr (g', k', b')"
     "length (population g') = nat (popSize g')" "popSize g' = popSize g"
     "ga_bounds g' = ga_bounds g" "elitism g' = elitism g"
     "sorted (map fitness (population g'))"
     "\<forall>p \<in> set (population g'). fitness p = Fin (func f (pos_x p) (pos_y p))"
     "bestGlobalFitness b' \<le> bestGlobalFitness b"
     "elitism g \<longrightarrow> (\<exists>p \<in> set (population g'). pos_x p = pos_x (hd (population g)) \<and> pos_y p = pos_y (hd (population g)))"
    using GA_step_total [OF assms(1) i assms(3), of f k b] by blast
  have ne: "population g \<noteq> []" using i assms(3) by auto
  then have "fitness (hd (population g)) = Fin (func f (pos_x (hd (population g))) (pos_y (hd (population g))))"
    using assms(2) by (simp add: GA_invariant_def list_all_iff)
  then have "elitism g \<longrightarrow> (\<exists>p \<in> set (population g'). fitness p = fitness (hd (population g)))"
    using s(7,9) by (metis (no_types, lifting))
  moreover have "GA_invariant f g'"
    using s assms(2) by (simp add: GA_invariant_def list_all_iff)
  ultimately show ?thesis using s by blast
qed

lemma GA_steps_invariant:
  assumes "\<forall>i. 0 \<le> rand i \<and> rand i < 1" "GA_invariant f g" "1 \<le> popSize g"
  shows "\<exists>g' k' b'. GA_steps rand f m (g, k, b) = Inr (g', k', b') \<and> GA_invariant f g' \<and>
     popSize g' = popSize g \<and> elitism g' = elitism g \<and>
     bestGlobalFitness b' \<le> bestGlobalFitness b"
proof (induction m)
  case 0
  then show ?case using assms(2) by simp
next
  case (Suc m)
  then obtain g1 k1 b1 where 1: "GA_steps rand f m (g, k, b) = Inr (g1, k1, b1)"
    "GA_invariant f g1" "popSize g1 = popSize g" "elitism g1 = elitism g"
    "bestGlobalFitness b1 \<le> bestGlobalFitness b" by blast
  obtain g2 k2 b2 where 2: "GA_step rand f g1 k1 b1 = Inr (g2, k2, b2)" "GA_invariant f g2"
     "popSize g2 = popSize g1" "elitism g2 = elitism g1"
     "bestGlobalFitness b2 \<le> bestGlobalFitness b1"
    using GA_step_invariant [OF assms(1) 1(2), of k1 b1] 1(3) assms(3) by auto
  show ?case using 1 2 by auto
qed

section \<open>The swarm, step by step\<close>

lemma evaluate_particle_fields:
  "pos_x (evaluate_particle f p) = pos_x p" "pos_y (evaluate_particle f p) = pos_y p"
  "vx (evaluate_particle f p) = vx p" "vy (evaluate_particle f p) = vy p"
  "fitness (evaluate_particle f p) = Fin (func f (pos_x p) (pos_y p))"
  by (simp_all add: evaluate_particle_def Let_def)

lemma PSO_evaluate_each_map:
  "fst (PSO_evaluate_each f ps b) = map (evaluate_particle f) ps"
  by (induction ps arbitrary: b) (simp_all add: Let_def case_prod_beta)

lemma PSO_evaluate_each_le:
  "bestGlobalFitness (snd (PSO_evaluate_each f ps b)) \<le> bestGlobalFitness b"
proof (induction ps arbitrary: b)
  case Nil
  then show ?case by simp
next
  case (Cons p ps)
  have "bestGlobalFitness (snd (PSO_evaluate_each f (p # ps) b))
        \<le> bestGlobalFitness (update_best (fitness (evaluate_particle f p))
             (pos_x (evaluate_particle f p), pos_y (evaluate_particle f p)) b)"
    using Cons.IH by (simp add: Let_def case_prod_beta)
  then show ?case
    using update_best_le order_trans by blast
qed

lemma update_best_defined: "best_defined b \<Longrightarrow> best_defined (update_best v p b)"
  by (simp add: update_best_def best_defined_def)

lemma update_best_Fin:
  "best_defined b \<Longrightarrow> bestGlobalPosition (update_best (Fin v) p b) \<noteq> None"
  by (cases "bestGlobalFitness b") (auto simp: update_best_def best_defined_def)

lemma best_position_kept:
  "bestGlobalPosition b \<noteq> None \<Longrightarrow> bestGlobalPosition (update_best v p b) \<noteq> None"
  by (simp add: update_best_def)

lemma PSO_evaluate_each_kept:
  "bestGlobalPosition b \<noteq> None \<Longrightarrow> bestGlobalPosition (snd (PSO_evaluate_each f ps b)) \<noteq> None"
proof (induction ps arbitrary: b)
  case Nil
  then show ?case by simp
next
  case (Cons p ps)
  define b1 where "b1 = update_best (fitness (evaluate_particle f p))
             (pos_x (evaluate_particle f p), pos_y (evaluate_particle f p)) b"
  have "bestGlobalPosition b1 \<noteq> None"
    unfolding b1_def using Cons.prems by (rule best_position_kept)
  then have "bestGlobalPosition (snd (PSO_evaluate_each f ps b1)) \<noteq> None"
    by (rule Cons.IH)
  moreover have "snd (PSO_evaluate_each f (p # ps) b) = snd (PSO_evaluate_each f ps b1)"
    by (simp add: Let_def case_prod_beta b1_def)
  ultimately show ?case by simp
qed

lemma PSO_evaluate_each_defined:
  assumes "best_defined b" "ps \<noteq> []"
  shows "bestGlobalPosition (snd (PSO_evaluate_each f ps b)) \<noteq> None"
proof -
  obtain p qs where ps: "ps = p # qs" using assms(2) by (cases ps) auto
  define b1 where "b1 = update_best (fitness (evaluate_particle f p))
             (pos_x (evaluate_particle f p), pos_y (evaluate_particle f p)) b"
  have "bestGlobalPosition b1 \<noteq> None"
    unfolding b1_def evaluate_particle_fields using assms(1) by (rule update_best_Fin)
  then have "bestGlobalPosition (snd (PSO_evaluate_each f qs b1)) \<noteq> None"
    by (rule PSO_evaluate_each_kept)
  moreover have "snd (PSO_evaluate_each f ps b) = snd (PSO_evaluate_each f qs b1)"
    by (simp add: ps Let_def case_prod_beta b1_def)
  ultimately show ?thesis by simp
qed

lemma PSO_evaluate_each_best_defined:
  "best_defined b \<Longrightarrow> best_defined (snd (PSO_evaluate_each f ps b))"
  by (induction ps arbitrary: b) (simp_all add: Let_def case_prod_beta update_best_defined)

lemma PSO_evaluate_particles:
  "particles (fst (PSO_evaluate f s b)) = map (evaluate_particle f) (particles s)"
  using PSO_evaluate_each_map [of f "particles s" b]
  by (simp add: PSO_evaluate_def case_prod_beta)

lemma PSO_evaluate_fields:
  "swarmSize (fst (PSO_evaluate f s b)) = swarmSize s"
  "w (fst (PSO_evaluate f s b)) = w s" "c1 (fst (PSO_evaluate f s b)) = c1 s"
  "c2 (fst (PSO_evaluate f s b)) = c2 s"
  "pso_bounds (fst (PSO_evaluate f s b)) = pso_bounds s"
  by (simp_all add: PSO_evaluate_def case_prod_beta)

lemma PSO_evaluate_best:
  "snd (PSO_evaluate f s b) = snd (PSO_evaluate_each f (particles s) b)"
  by (simp add: PSO_evaluate_def case_prod_beta)

lemma init_particles_length: "length (init_particles rand bd n k) = n"
  by (induction n arbitrary: k) (simp_all add: Let_def)

lemma init_particles_inside:
  "\<forall>i. 0 \<le> rand i \<and> rand i < 1 \<Longrightarrow> fst bd \<le> snd bd \<Longrightarrow>
   \<forall>p \<in> set (init_particles rand bd n k). inside bd p"
  by (induction n arbitrary: k) (auto simp: inside_def random_range_bounds Let_def)

lemma move_particles_Some:
  assumes "bestGlobalPosition b = Some gb"
  shows "move_particles rand s b ps k =
     Inr (map (\<lambda>i. move_particle s gb (rand (k + 2 * i)) (rand (k + 2 * i + 1)) (ps ! i)) [0..<length ps],
          k + 2 * length ps)"
proof (induction ps arbitrary: k)
  case Nil
  then show ?case by simp
next
  case (Cons p ps)
  have "map (\<lambda>i. move_particle s gb (rand (k + 2 * i)) (rand (k + 2 * i + 1)) ((p # ps) ! i)) [0..<length (p # ps)]
      = move_particle s gb (rand k) (rand (k + 1)) p #
        map (\<lambda>i. move_particle s gb (rand (k + 2 + 2 * i)) (rand (k + 2 + 2 * i + 1)) (ps ! i)) [0..<length ps]"
    by (simp add: upt_conv_Cons map_Suc_upt [symmetric] del: upt_Suc) 
  then show ?case using assms Cons.IH [of "k + 2"] by simp
qed

lemma move_particle_inside:
  "fst (pso_bounds s) \<le> snd (pso_bounds s) \<Longrightarrow> inside (pso_bounds s) (move_particle s gb r1 r2 p)"
  by (simp add: move_particle_def Let_def inside_def clamp_bounds)



lemma PSO_constructor_invariant:
  assumes "\<forall>i. 0 \<le> rand i \<and> rand i < 1" "fst (bounds f) \<le> snd (bounds f)" "best_defined b"
  shows "\<exists>s k' b'. PSO_constructor rand f n w0 a1 a2 k b = (s, k', b') \<and>
           PSO_invariant f s b' \<and> best_defined b' \<and> length (particles s) = nat n"
proof -
  define s where "s = \<lparr>swarmSize = n, w = w0, c1 = a1, c2 = a2, pso_color = ''#3498db'',
                particles = init_particles rand (bounds f) (nat n) k,
                pso_bounds = bounds f\<rparr>"
  define r where "r = PSO_evaluate f s b"
  have c: "PSO_constructor rand f n w0 a1 a2 k b = (fst r, k + 4 * nat n, snd r)"
    by (simp add: PSO_constructor_def s_def r_def Let_def case_prod_beta)
  have ps: "particles (fst r) = map (evaluate_particle f) (particles s)"
    by (simp add: r_def PSO_evaluate_particles)
  have "\<forall>p \<in> set (particles s). inside (bounds f) p"
    using init_particles_inside [OF assms(1,2)] by (simp add: s_def)
  then have ins: "list_all (inside (bounds f)) (particles (fst r))"
    by (simp add: ps list_all_iff inside_def evaluate_particle_fields)
  have "particles s \<noteq> [] \<longrightarrow> bestGlobalPosition (snd r) \<noteq> None"
    using PSO_evaluate_each_defined [OF assms(3)] by (simp add: r_def PSO_evaluate_best)
  then have "PSO_invariant f (fst r) (snd r)"
    using ins by (simp add: PSO_invariant_def ps) (simp add: r_def PSO_evaluate_fields s_def)
  moreover have "best_defined (snd r)"
    using PSO_evaluate_each_best_defined [OF assms(3)] by (simp add: r_def PSO_evaluate_best)
  moreover have "length (particles (fst r)) = nat n"
    by (simp add: ps) (simp add: s_def init_particles_length)
  ultimately show ?thesis using c by blast
qed

lemma PSO_step_invariant:
  assumes "fst (bounds f) \<le> snd (bounds f)" "PSO_invariant f s b"
  shows "\<exists>s' k' b'. PSO_step rand f s k b = Inr (s', k', b') \<and> PSO_invariant f s' b' \<and>
     length (particles s') = length (particles s) \<and>
     bestGlobalFitness b' \<le> bestGlobalFitness b"
proof (cases "particles s = []")
  case True
  then show ?thesis using assms(2)
    by (simp add: PSO_step_def PSO_evaluate_def PSO_invariant_def)
next
  case False
  then obtain gb where gb: "bestGlobalPosition b = Some gb"
    using assms(2) by (auto simp: PSO_invariant_def)
  define ps where "ps = map (\<lambda>i. move_particle s gb (rand (k + 2 * i)) (rand (k + 2 * i + 1)) (particles s ! i)) [0..<length (particles s)]"
  define r where "r = PSO_evaluate f (s\<lparr>particles := ps\<rparr>) b"
  have st: "PSO_step rand f s k b = Inr (fst r, k + 2 * length (particles s), snd r)"
    by (simp add: PSO_step_def move_particles_Some [OF gb] ps_def r_def case_prod_beta)
  have bd: "pso_bounds s = bounds f" using assms(2) by (simp add: PSO_invariant_def)
  have "\<forall>p \<in> set ps. inside (bounds f) p"
    using move_particle_inside [of s] assms(1) bd by (auto simp: ps_def)
  then have ins: "list_all (inside (bounds f)) (particles (fst r))"
    by (simp add: r_def PSO_evaluate_particles list_all_iff inside_def evaluate_particle_fields)
  have "bestGlobalPosition (snd r) \<noteq> None"
    unfolding r_def PSO_evaluate_best using gb by (intro PSO_evaluate_each_kept) simp
  then have "PSO_invariant f (fst r) (snd r)"
    using ins bd by (simp add: PSO_invariant_def) (simp add: r_def PSO_evaluate_fields)
  moreover have "length (particles (fst r)) = length (particles s)"
    by (simp add: r_def PSO_evaluate_particles ps_def)
  moreover have "bestGlobalFitness (snd r) \<le> bestGlobalFitness b"
    by (simp add: r_def PSO_evaluate_best PSO_evaluate_each_le)
  ultimately show ?thesis using st by blast
qed

lemma PSO_steps_invariant:
  assumes "fst (bounds f) \<le> snd (bounds f)" "PSO_invariant f s b"
  shows "\<exists>s' k' b'. PSO_steps rand f m (s, k, b) = Inr (s', k', b') \<and> PSO_invariant f s' b' \<and>
     length (particles s') = length (particles s) \<and>
     bestGlobalFitness b' \<le> bestGlobalFitness b"
proof (induction m)
  case 0
  then show ?case using assms(2) by simp
next
  case (Suc m)
  then obtain s1 k1 b1 where 1: "PSO_steps rand f m (s, k, b) = Inr (s1, k1, b1)"
    "PSO_invariant f s1 b1" "length (particles s1) = length (particles s)"
    "bestGlobalFitness b1 \<le> bestGlobalFitness b" by blast
  obtain s2 k2 b2 where 2: "PSO_step rand f s1 k1 b1 = Inr (s2, k2, b2)" "PSO_invariant f s2 b2"
     "length (particles s2) = length (particles s1)"
     "bestGlobalFitness b2 \<le> bestGlobalFitness b1"
    using PSO_step_invariant [OF assms(1) 1(2), of rand k1] by blast
  show ?case using 1 2 by auto
qed

lemma initial_best_defined: "best_defined initial_best"
  by (simp add: best_defined_def initial_best_def)

section \<open>Rounding to doubles\<close>

lemma double_eval:
  assumes "2 powr real_of_int e \<le> \<bar>x\<bar>" and "\<bar>x\<bar> < 2 powr real_of_int (e + 1)"
  shows "double x = 2 powr (real_of_int e - 52) * of_int (round_even (x / 2 powr (real_of_int e - 52)))"
proof -
  have "0 < (2::real) powr real_of_int e" by simp
  then have pos: "0 < \<bar>x\<bar>" using assms(1) by linarith
  then have "\<lfloor>log 2 \<bar>x\<bar>\<rfloor> = e"
    using assms by (simp add: floor_log_eq_powr_iff)
  then show ?thesis using pos by (simp add: double_def Let_def)
qed

lemma double_512: "double 5.12 = 5764607523034235 / 2 ^ 50"
proof -
  have "double 5.12 = 2 powr (real_of_int 2 - 52) * of_int (round_even (5.12 / 2 powr (real_of_int 2 - 52)))"
    by (rule double_eval) (simp_all add: powr_numeral)
  also have "2 powr (real_of_int 2 - 52) = 1 / 2 ^ 50"
    by (simp add: powr_neg_numeral)
  finally show ?thesis by (simp add: round_even_def)
qed

lemma blend_step_1:
  "double (4096939487986805 / 2 ^ 52 * (5764607523034235 / 2 ^ 50)) = 5244082544623111 / 2 ^ 50"
proof -
  have "double (4096939487986805 / 2 ^ 52 * (5764607523034235 / 2 ^ 50)) =
     2 powr (real_of_int 2 - 52) *
       of_int (round_even (4096939487986805 / 2 ^ 52 * (5764607523034235 / 2 ^ 50) / 2 powr (real_of_int 2 - 52)))"
    by (rule double_eval) (simp_all add: powr_numeral)
  also have "2 powr (real_of_int 2 - 52) = 1 / 2 ^ 50"
    by (simp add: powr_neg_numeral)
  finally show ?thesis by (simp add: round_even_def)
qed

lemma blend_step_2:
  "double (1 - 4096939487986805 / 2 ^ 52) = 6506562230139056 / 2 ^ 56"
proof -
  have "double (1 - 4096939487986805 / 2 ^ 52) =
     2 powr (real_of_int (- 4) - 52) *
       of_int (round_even ((1 - 4096939487986805 / 2 ^ 52) / 2 powr (real_of_int (- 4) - 52)))"
    by (rule double_eval) (simp_all add: powr_neg_numeral)
  also have "2 powr (real_of_int (- 4) - 52) = 1 / 2 ^ 56"
    by (simp add: powr_neg_numeral)
  finally show ?thesis by (simp add: round_even_def)
qed

lemma blend_step_3:
  "double (6506562230139056 / 2 ^ 56 * (5764607523034235 / 2 ^ 50)) = 8328399654577992 / 2 ^ 54"
proof -
  have "double (6506562230139056 / 2 ^ 56 * (5764607523034235 / 2 ^ 50)) =
     2 powr (real_of_int (- 2) - 52) *
       of_int (round_even (6506562230139056 / 2 ^ 56 * (5764607523034235 / 2 ^ 50) / 2 powr (real_of_int (- 2) - 52)))"
    by (rule double_eval) (simp_all add: powr_neg_numeral)
  also have "2 powr (real_of_int (- 2) - 52) = 1 / 2 ^ 54"
    by (simp add: powr_neg_numeral)
  finally show ?thesis by (simp add: round_even_def)
qed

lemma blend_step_4:
  "double (5244082544623111 / 2 ^ 50 + 8328399654577992 / 2 ^ 54) = 5764607523034236 / 2 ^ 50"
proof -
  have "double (5244082544623111 / 2 ^ 50 + 8328399654577992 / 2 ^ 54) =
     2 powr (real_of_int 2 - 52) *
       of_int (round_even ((5244082544623111 / 2 ^ 50 + 8328399654577992 / 2 ^ 54) / 2 powr (real_of_int 2 - 52)))"
    by (rule double_eval) (simp_all add: powr_numeral)
  also have "2 powr (real_of_int 2 - 52) = 1 / 2 ^ 50"
    by (simp add: powr_neg_numeral)
  finally show ?thesis by (simp add: round_even_def)
qed

lemma blend_overshoot:
  "blend (4096939487986805 / 2 ^ 52) (5764607523034235 / 2 ^ 50) (5764607523034235 / 2 ^ 50)
   = 5764607523034236 / 2 ^ 50"
  unfolding blend_def blend_step_1 blend_step_2 blend_step_3 blend_step_4 ..

section \<open>Claims about the genetic algorithm\<close>

lemma init_population_numeral:
  "init_population rand b (numeral n) k =
     \<lparr>pos_x = random_range (rand k) (fst b) (snd b),
      pos_y = random_range (rand (k + 1)) (fst b) (snd b),
      fitness = Infinity\<rparr> # init_population rand b (pred_numeral n) (k + 2)"
  by (simp add: numeral_eq_Suc)

lemma varied_draws_valid: "\<forall>i. 0 \<le> varied_draws i \<and> varied_draws i < 1"
  by (simp add: varied_draws_def)

text \<open>
  Claim C5.  Whenever the draws lie in \<open>[0, 1)\<close> and the population size \<open>n\<close> is at
  least 2, the construction of a genetic optimiser on the current function \<open>f\<close>
  followed by any number \<open>m\<close> of calls of \<^verbatim>\<open>step\<close> returns an optimiser, and after the
  \<^verbatim>\<open>evaluate\<close> that ended the construction (\<open>m = 0\<close>) or the last step its population
  has exactly \<open>n\<close> members, the fitness of each member is the value of \<open>f\<close> at the
  position of that member, and the fitness values ascend, the best member first.
\<close>

theorem GA_population_size_sorted:
  assumes "\<forall>i. 0 \<le> rand i \<and> rand i < 1" and "2 \<le> n"
  shows "\<exists>g k' b'. GA_steps rand f m (GA_constructor rand f n mr cr el k b) = Inr (g, k', b') \<and>
           popSize g = n \<and> int (length (population g)) = n \<and>
           list_all (\<lambda>p. fitness p = Fin (func f (pos_x p) (pos_y p))) (population g) \<and>
           sorted (map fitness (population g))"
proof -
  obtain g0 k0 b0 where c: "GA_constructor rand f n mr cr el k b = (g0, k0, b0)"
    by (metis prod_cases3)
  have g0: "GA_invariant f g0" "popSize g0 = n"
    using GA_constructor_invariant [of f rand n mr cr el k b] c by simp_all
  then have "1 \<le> popSize g0" using assms(2) by simp
  then obtain g k' b' where "GA_steps rand f m (g0, k0, b0) = Inr (g, k', b')" "GA_invariant f g"
    "popSize g = popSize g0"
    using GA_steps_invariant [OF assms(1) g0(1), of m k0 b0] by blast
  then show ?thesis using c g0(2) assms(2) by (simp add: GA_invariant_def)
qed

theorem GA_population_size_sorted_witness:
  "(\<forall>i. 0 \<le> varied_draws i \<and> varied_draws i < 1) \<and>
   population (fst (GA_constructor varied_draws rosenbrock 4 (1 / 10) (4 / 5) False 0 initial_best)) =
     [\<lparr>pos_x = 1, pos_y = 5 / 4, fitness = Fin (25 / 4)\<rparr>,
      \<lparr>pos_x = 1 / 2, pos_y = 3 / 4, fitness = Fin (101 / 4)\<rparr>,
      \<lparr>pos_x = 3 / 2, pos_y = 7 / 4, fitness = Fin (101 / 4)\<rparr>,
      \<lparr>pos_x = - 2, pos_y = - (7 / 4), fitness = Fin (13261 / 4)\<rparr>] \<and>
   (\<exists>g k' b'. GA_steps varied_draws rosenbrock 3
        (GA_constructor varied_draws rosenbrock 4 (1 / 10) (4 / 5) False 0 initial_best) = Inr (g, k', b') \<and>
      popSize g = 4 \<and> int (length (population g)) = 4 \<and>
      list_all (\<lambda>p. fitness p = Fin (func rosenbrock (pos_x p) (pos_y p))) (population g) \<and>
      sorted (map fitness (population g)))"
proof -
  have "population (fst (GA_constructor varied_draws rosenbrock 4 (1 / 10) (4 / 5) False 0 initial_best)) =
     [\<lparr>pos_x = 1, pos_y = 5 / 4, fitness = Fin (25 / 4)\<rparr>,
      \<lparr>pos_x = 1 / 2, pos_y = 3 / 4, fitness = Fin (101 / 4)\<rparr>,
      \<lparr>pos_x = 3 / 2, pos_y = 7 / 4, fitness = Fin (101 / 4)\<rparr>,
      \<lparr>pos_x = - 2, pos_y = - (7 / 4), fitness = Fin (13261 / 4)\<rparr>]"
    by (simp add: GA_constructor_def GA_evaluate_def Let_def rosenbrock_def rosenbrock_func_def
        varied_draws_def initial_best_def update_best_def random_range_def
        init_population_numeral power2_eq_square)
  then show ?thesis
    using GA_population_size_sorted [of varied_draws 4 rosenbrock 3 "1 / 10" "4 / 5" False 0 initial_best]
      varied_draws_valid
    by simp
qed

lemma sorted_fitness_hd:
  assumes "sorted (map fitness ps)" "ps \<noteq> []"
  shows "Min (set (map fitness ps)) = fitness (hd ps)"
proof (rule Min_eqI)
  show "finite (set (map fitness ps))" by simp
  show "fitness (hd ps) \<in> set (map fitness ps)" using assms(2) by simp
  fix v assume "v \<in> set (map fitness ps)"
  then show "fitness (hd ps) \<le> v"
    using assms by (cases ps) auto
qed

text \<open>
  What elitism does give: as long as every \<^verbatim>\<open>evaluate\<close> of a run reads the same
  current function \<open>f\<close>, the member at index 0 has the least fitness of its generation,
  that fitness value is present again in the next generation, and the least fitness does
  not rise.
\<close>

lemma elitism_with_fixed_function:
  assumes "\<forall>i. 0 \<le> rand i \<and> rand i < 1" and "1 \<le> n"
  shows "\<exists>g k1 b1 g' k2 b2.
           GA_steps rand f m (GA_constructor rand f n mr cr True k b) = Inr (g, k1, b1) \<and>
           GA_step rand f g k1 b1 = Inr (g', k2, b2) \<and>
           fitness (hd (population g)) = Min (set (map fitness (population g))) \<and>
           fitness (hd (population g)) \<in> set (map fitness (population g')) \<and>
           Min (set (map fitness (population g'))) \<le> Min (set (map fitness (population g)))"
proof -
  obtain g0 k0 b0 where c: "GA_constructor rand f n mr cr True k b = (g0, k0, b0)"
    by (metis prod_cases3)
  have g0: "GA_invariant f g0" "popSize g0 = n" "elitism g0"
    using GA_constructor_invariant [of f rand n mr cr True k b] c by simp_all
  then have "1 \<le> popSize g0" using assms(2) by simp
  then obtain g k1 b1 where g: "GA_steps rand f m (g0, k0, b0) = Inr (g, k1, b1)"
    "GA_invariant f g" "popSize g = popSize g0" "elitism g = elitism g0"
    using GA_steps_invariant [OF assms(1) g0(1), of m k0 b0] by blast
  have n: "1 \<le> popSize g" using g(3) g0(2) assms(2) by simp
  obtain g' k2 b2 where g': "GA_step rand f g k1 b1 = Inr (g', k2, b2)"
    "elitism g \<longrightarrow> (\<exists>p \<in> set (population g'). fitness p = fitness (hd (population g)))"
    using GA_step_invariant [OF assms(1) g(2) n, of k1 b1] by blast
  have ne: "population g \<noteq> []" using g(2) n by (auto simp: GA_invariant_def)
  have srt: "sorted (map fitness (population g))" using g(2) by (simp add: GA_invariant_def)
  have hd: "Min (set (map fitness (population g))) = fitness (hd (population g))"
    using srt ne by (rule sorted_fitness_hd)
  have mem: "fitness (hd (population g)) \<in> set (map fitness (population g'))"
  proof -
    obtain p where "p \<in> set (population g')" "fitness p = fitness (hd (population g))"
      using g'(2) g(4) g0(3) by blast
    then show ?thesis by (metis image_eqI set_map)
  qed
  then have "Min (set (map fitness (population g'))) \<le> fitness (hd (population g))"
    by (intro Min_le) auto
  then show ?thesis using c g(1) g'(1) hd mem by simp
qed

lemmas ga_defs = GA_constructor_def GA_evaluate_def GA_step_def breed.simps offspring_def
  tournamentSelect_def index_def crossover_def mutate_def mutate_coordinate_def
  update_best_def random_range_def

lemma elitist_rosenbrock_constructed:
  "GA_constructor varied_draws rosenbrock 2 0 0 True 0 initial_best =
     (elitist_ga (- 2, 2)
        [\<lparr>pos_x = 1, pos_y = 5 / 4, fitness = Fin (25 / 4)\<rparr>,
         \<lparr>pos_x = 1 / 2, pos_y = 3 / 4, fitness = Fin (101 / 4)\<rparr>],
      4, \<lparr>bestGlobalFitness = Fin (25 / 4), bestGlobalPosition = Some (1, 5 / 4)\<rparr>)"
  by (simp add: varied_draws_def ga_defs Let_def initial_best_def elitist_ga_def
      rosenbrock_def rosenbrock_func_def numeral_2_eq_2 power2_eq_square)

lemma elitist_rosenbrock_step:
  "GA_step varied_draws rosenbrock
     (elitist_ga (- 2, 2)
        [\<lparr>pos_x = 1, pos_y = 5 / 4, fitness = Fin (25 / 4)\<rparr>,
         \<lparr>pos_x = 1 / 2, pos_y = 3 / 4, fitness = Fin (101 / 4)\<rparr>])
     4 \<lparr>bestGlobalFitness = Fin (25 / 4), bestGlobalPosition = Some (1, 5 / 4)\<rparr> =
   Inr (elitist_ga (- 2, 2)
        [\<lparr>pos_x = 1, pos_y = 5 / 4, fitness = Fin (25 / 4)\<rparr>,
         \<lparr>pos_x = 1, pos_y = 5 / 4, fitness = Fin (25 / 4)\<rparr>],
      15, \<lparr>bestGlobalFitness = Fin (25 / 4), bestGlobalPosition = Some (1, 5 / 4)\<rparr>)"
  by (simp add: varied_draws_def ga_defs Let_def elitist_ga_def
      rosenbrock_def rosenbrock_func_def numeral_3_eq_3 power2_eq_square)

lemma elitist_sphere_constructed:
  "GA_constructor varied_draws sphere 2 0 0 True 15 initial_best =
     (elitist_ga (- (128 / 25), 128 / 25)
        [\<lparr>pos_x = 16 / 25, pos_y = 32 / 25, fitness = Fin (256 / 125)\<rparr>,
         \<lparr>pos_x = 48 / 25, pos_y = 64 / 25, fitness = Fin (256 / 25)\<rparr>],
      19, \<lparr>bestGlobalFitness = Fin (256 / 125), bestGlobalPosition = Some (16 / 25, 32 / 25)\<rparr>)"
  by (simp add: varied_draws_def ga_defs Let_def initial_best_def elitist_ga_def
      sphere_def sphere_func_def numeral_2_eq_2 power2_eq_square)

lemma elitist_sphere_step:
  "GA_step varied_draws sphere
     (elitist_ga (- (128 / 25), 128 / 25)
        [\<lparr>pos_x = 16 / 25, pos_y = 32 / 25, fitness = Fin (256 / 125)\<rparr>,
         \<lparr>pos_x = 48 / 25, pos_y = 64 / 25, fitness = Fin (256 / 25)\<rparr>])
     19 \<lparr>bestGlobalFitness = Fin (256 / 125), bestGlobalPosition = Some (16 / 25, 32 / 25)\<rparr> =
   Inr (elitist_ga (- (128 / 25), 128 / 25)
        [\<lparr>pos_x = 16 / 25, pos_y = 32 / 25, fitness = Fin (256 / 125)\<rparr>,
         \<lparr>pos_x = 48 / 25, pos_y = 64 / 25, fitness = Fin (256 / 25)\<rparr>],
      30, \<lparr>bestGlobalFitness = Fin (256 / 125), bestGlobalPosition = Some (16 / 25, 32 / 25)\<rparr>)"
  by (simp add: varied_draws_def ga_defs Let_def elitist_ga_def
      sphere_def sphere_func_def numeral_3_eq_3 power2_eq_square)

lemma elitist_resumed_step:
  "GA_step varied_draws rosenbrock
     (elitist_ga (- (128 / 25), 128 / 25)
        [\<lparr>pos_x = 16 / 25, pos_y = 32 / 25, fitness = Fin (256 / 125)\<rparr>,
         \<lparr>pos_x = 48 / 25, pos_y = 64 / 25, fitness = Fin (256 / 25)\<rparr>])
     30 \<lparr>bestGlobalFitness = Fin (256 / 125), bestGlobalPosition = Some (16 / 25, 32 / 25)\<rparr> =
   Inr (elitist_ga (- (128 / 25), 128 / 25)
        [\<lparr>pos_x = 16 / 25, pos_y = 32 / 25, fitness = Fin (1185769 / 15625)\<rparr>,
         \<lparr>pos_x = 48 / 25, pos_y = 64 / 25, fitness = Fin (1995689 / 15625)\<rparr>],
      41, \<lparr>bestGlobalFitness = Fin (256 / 125), bestGlobalPosition = Some (16 / 25, 32 / 25)\<rparr>)"
  by (simp add: varied_draws_def ga_defs Let_def elitist_ga_def
      rosenbrock_def rosenbrock_func_def numeral_3_eq_3 power2_eq_square)

lemmas elitist_runs = elitist_rosenbrock_constructed elitist_rosenbrock_step
  elitist_sphere_constructed elitist_sphere_step elitist_resumed_step

lemma benchmark_names:
  "name sphere = ''Sphere''" "name rastrigin = ''Rastrigin''" "name schwefel = ''Schwefel''"
  "name rosenbrock = ''Rosenbrock''" "name ackley = ''Ackley''"
  by (simp_all add: sphere_def rastrigin_def schwefel_def rosenbrock_def ackley_def)

lemmas elitist_page = and_then_def selectFunction_def functions_table_def
  startSimulation_def resetSimulation_def render_def loop_def stopSimulation_def logResult_def
  captureState_def getPopulation_def positions_def algorithm_step_def algorithm_color_def
  initial_app_def startReplay_def replayLoop_def elitist_form_def Let_def benchmark_names
  optimiser_def members_def

lemma elitist_stopped_optimiser:
  "optimiser elitist_stopped =
     Some (elitist_ga (- 5.12, 5.12)
       [\<lparr>pos_x = 16 / 25, pos_y = 32 / 25, fitness = Fin (256 / 125)\<rparr>,
        \<lparr>pos_x = 48 / 25, pos_y = 64 / 25, fitness = Fin (256 / 25)\<rparr>])"
  by (simp add: elitist_stopped_def elitist_page elitist_runs [unfolded elitist_ga_def]
      elitist_ga_def)

lemma elitist_resumed_optimiser:
  "optimiser elitist_resumed =
     Some (elitist_ga (- 5.12, 5.12)
       [\<lparr>pos_x = 16 / 25, pos_y = 32 / 25, fitness = Fin (1185769 / 15625)\<rparr>,
        \<lparr>pos_x = 48 / 25, pos_y = 64 / 25, fitness = Fin (1995689 / 15625)\<rparr>])"
  by (simp add: elitist_resumed_def elitist_stopped_def elitist_page
      elitist_runs [unfolded elitist_ga_def] elitist_ga_def)

text \<open>
  Claim C8, as stated, fails on the page.  \<^verbatim>\<open>evaluate\<close> reads the global
  \<^verbatim>\<open>currentFunction\<close>, and \<^verbatim>\<open>startReplay\<close> sets it to the function of the replayed
  entry while the stopped optimiser is kept.  With elitism and two members: after a run
  on Rosenbrock was logged, a run on Sphere is stopped with the fitness values
  \<open>256 / 125\<close> and \<open>256 / 25\<close>; the Rosenbrock entry is replayed and the replay stopped;
  Run resumes the optimiser, whose next generation holds the same two positions, the
  member at index 0 copied unchanged, but with the Rosenbrock values \<open>1185769 / 15625\<close>
  and \<open>1995689 / 15625\<close>: the least fitness of the generation has risen.
\<close>

theorem replay_then_resume_raises_the_least_fitness:
  "optimiser elitist_stopped =
     Some (elitist_ga (- 5.12, 5.12)
       [\<lparr>pos_x = 16 / 25, pos_y = 32 / 25, fitness = Fin (256 / 125)\<rparr>,
        \<lparr>pos_x = 48 / 25, pos_y = 64 / 25, fitness = Fin (256 / 25)\<rparr>]) \<and>
   optimiser elitist_resumed =
     Some (elitist_ga (- 5.12, 5.12)
       [\<lparr>pos_x = 16 / 25, pos_y = 32 / 25, fitness = Fin (1185769 / 15625)\<rparr>,
        \<lparr>pos_x = 48 / 25, pos_y = 64 / 25, fitness = Fin (1995689 / 15625)\<rparr>]) \<and>
   map_option elitism (optimiser elitist_stopped) = Some True \<and>
   Min (set (map fitness (members elitist_stopped))) = Fin (256 / 125) \<and>
   Min (set (map fitness (members elitist_resumed))) = Fin (1185769 / 15625) \<and>
   Min (set (map fitness (members elitist_stopped))) <
     Min (set (map fitness (members elitist_resumed)))"
  by (simp add: members_def elitist_stopped_optimiser elitist_resumed_optimiser elitist_ga_def)

section \<open>Claims about both optimisers\<close>

text \<open>
  What the swarm does give: with ordered bounds \<open>(lo, hi)\<close> of the current function, a
  swarm exists after construction and any number \<open>m\<close> of steps, and both coordinates of
  every particle lie in \<open>[lo, hi]\<close>, since \<^verbatim>\<open>step\<close> clamps every position it computes.
\<close>

lemma swarm_stays_in_bounds:
  assumes "\<forall>i. 0 \<le> rand i \<and> rand i < 1" and "fst (bounds f) \<le> snd (bounds f)"
  shows "\<exists>s k' b'. PSO_steps rand f m (PSO_constructor rand f ns w0 a1 a2 k initial_best) = Inr (s, k', b') \<and>
            list_all (\<lambda>p. fst (bounds f) \<le> pos_x p \<and> pos_x p \<le> snd (bounds f) \<and>
                           fst (bounds f) \<le> pos_y p \<and> pos_y p \<le> snd (bounds f)) (particles s)"
proof -
  obtain s0 k0 b0 where c: "PSO_constructor rand f ns w0 a1 a2 k initial_best = (s0, k0, b0)"
    "PSO_invariant f s0 b0"
    using PSO_constructor_invariant [OF assms(1,2) initial_best_defined] by blast
  obtain s k' b' where "PSO_steps rand f m (s0, k0, b0) = Inr (s, k', b')" "PSO_invariant f s b'"
    using PSO_steps_invariant [OF assms(2) c(2), of rand m k0] by blast
  then show ?thesis
    using c(1) by (simp add: PSO_invariant_def inside_def [abs_def])
qed

text \<open>
  Claim C6, as stated, fails for the genetic optimiser.  The children of a crossover are
  stored as the blend computes them; \<^verbatim>\<open>mutate\<close> clamps a coordinate only when its
  draw fires, whereas the swarm clamps every position.  With both parents at
  \<open>x = y = 5.12\<close> (the double, \<open>5764607523034235 / 2\<^sup>5\<^sup>0\<close>) on the sphere function and
  \<open>alpha = 0.9097033100117902\<close>, the two products of the blend round to
  \<open>5244082544623111 / 2\<^sup>5\<^sup>0\<close> and \<open>8328399654577992 / 2\<^sup>5\<^sup>4\<close>, and their sum lies
  halfway between two doubles and rounds to the even one, \<open>5764607523034236 / 2\<^sup>5\<^sup>0\<close>,
  which is 5.120000000000001: after the step and its \<^verbatim>\<open>evaluate\<close>, both members lie
  above the upper bound in both coordinates.
\<close>

theorem blended_child_leaves_the_bounds:
  "double 5.12 = 5764607523034235 / 2 ^ 50 \<and>
   GA_step overshoot_draws sphere overshoot_ga 0 overshoot_best =
     Inr (overshoot_ga
            \<lparr>population :=
               [\<lparr>pos_x = 5764607523034236 / 2 ^ 50, pos_y = 5764607523034236 / 2 ^ 50,
                 fitness = Fin (func sphere (5764607523034236 / 2 ^ 50) (5764607523034236 / 2 ^ 50))\<rparr>,
                \<lparr>pos_x = 5764607523034236 / 2 ^ 50, pos_y = 5764607523034236 / 2 ^ 50,
                 fitness = Fin (func sphere (5764607523034236 / 2 ^ 50) (5764607523034236 / 2 ^ 50))\<rparr>]\<rparr>,
          12, overshoot_best) \<and>
   snd (bounds sphere) < (5764607523034236 / 2 ^ 50 :: real) \<and>
   double (snd (bounds sphere)) < 5764607523034236 / 2 ^ 50"
proof -
  have d: "double (128 / 25) = 5764607523034235 / 1125899906842624"
    using double_512 by simp
  have bl: "blend (4096939487986805 / 4503599627370496) (5764607523034235 / 1125899906842624)
      (5764607523034235 / 1125899906842624) = 1441151880758559 / 281474976710656"
    using blend_overshoot by simp
  show ?thesis
    by (simp add: d bl overshoot_ga_def overshoot_best_def overshoot_draws_def
      GA_step_def breed.simps offspring_def tournamentSelect_def index_def crossover_def
      mutate_def mutate_coordinate_def GA_evaluate_def
      update_best_def sphere_def sphere_func_def Let_def numeral_3_eq_3)
qed

section \<open>Claims about the run-global best\<close>

lemma GA_evaluate_each_foldl:
  "snd (GA_evaluate_each f inds b) =
   foldl (\<lambda>b p. update_best (Fin (func f (pos_x p) (pos_y p))) (pos_x p, pos_y p) b) b inds"
  by (induction inds arbitrary: b) (simp_all add: Let_def case_prod_beta)

lemma PSO_evaluate_each_foldl:
  "snd (PSO_evaluate_each f ps b) =
   foldl (\<lambda>b p. update_best (Fin (func f (pos_x p) (pos_y p))) (pos_x p, pos_y p) b) b ps"
  by (induction ps arbitrary: b) (simp_all add: Let_def case_prod_beta evaluate_particle_fields)

lemma foldl_update_best_Min:
  "bestGlobalFitness (foldl (\<lambda>b p. update_best (v p) (q p) b) b xs) =
   Min (insert (bestGlobalFitness b) (v ` set xs))"
proof (induction xs arbitrary: b)
  case Nil
  then show ?case by simp
next
  case (Cons x xs)
  have "bestGlobalFitness (update_best (v x) (q x) b) = min (v x) (bestGlobalFitness b)"
    by (auto simp: update_best_def min_def)
  then have "bestGlobalFitness (foldl (\<lambda>b p. update_best (v p) (q p) b) b (x # xs)) =
    Min (insert (min (v x) (bestGlobalFitness b)) (v ` set xs))"
    using Cons.IH [of "update_best (v x) (q x) b"] by simp
  also have "\<dots> = Min (insert (bestGlobalFitness b) (v ` set (x # xs)))"
  proof (cases "set xs = {}")
    case True
    then show ?thesis by (simp add: min.commute)
  next
    case False
    then show ?thesis by (simp add: ac_simps)
  qed
  finally show ?case .
qed

lemma foldl_update_best_same:
  "\<forall>p \<in> set xs. \<not> v p < bestGlobalFitness b \<Longrightarrow>
   foldl (\<lambda>b p. update_best (v p) (q p) b) b xs = b"
  by (induction xs) (simp_all add: update_best_def)

lemma foldl_update_best_changed:
  "foldl (\<lambda>b p. update_best (v p) (q p) b) b xs \<noteq> b \<Longrightarrow>
   \<exists>p \<in> set xs. bestGlobalFitness (foldl (\<lambda>b p. update_best (v p) (q p) b) b xs) = v p \<and>
      bestGlobalPosition (foldl (\<lambda>b p. update_best (v p) (q p) b) b xs) = Some (q p)"
proof (induction xs arbitrary: b)
  case Nil
  then show ?case by simp
next
  case (Cons x xs)
  define b1 where "b1 = update_best (v x) (q x) b"
  show ?case
  proof (cases "foldl (\<lambda>b p. update_best (v p) (q p) b) b1 xs = b1")
    case False
    then show ?thesis using Cons.IH [of b1] by (auto simp: b1_def)
  next
    case True
    then have "b1 \<noteq> b" using Cons.prems by (simp add: b1_def)
    then have "bestGlobalFitness b1 = v x \<and> bestGlobalPosition b1 = Some (q x)"
      by (auto simp: b1_def update_best_def split: if_splits)
    then show ?thesis using True by (simp add: b1_def)
  qed
qed

lemma foldl_update_best_iff:
  "(foldl (\<lambda>b p. update_best (v p) (q p) b) b xs \<noteq> b) =
   (\<exists>p \<in> set xs. v p < bestGlobalFitness b)"
proof
  assume "foldl (\<lambda>b p. update_best (v p) (q p) b) b xs \<noteq> b"
  then show "\<exists>p \<in> set xs. v p < bestGlobalFitness b"
    using foldl_update_best_same [of xs v b q] by blast
next
  assume "\<exists>p \<in> set xs. v p < bestGlobalFitness b"
  then obtain p where p: "p \<in> set xs" "v p < bestGlobalFitness b" by blast
  have "Min (insert (bestGlobalFitness b) (v ` set xs)) \<le> v p"
    using p(1) by (intro Min_le) auto
  then have "Min (insert (bestGlobalFitness b) (v ` set xs)) < bestGlobalFitness b"
    using p(2) by (rule le_less_trans)
  then have "bestGlobalFitness (foldl (\<lambda>b p. update_best (v p) (q p) b) b xs) < bestGlobalFitness b"
    by (simp only: foldl_update_best_Min)
  then show "foldl (\<lambda>b p. update_best (v p) (q p) b) b xs \<noteq> b" by auto
qed

lemma GA_evaluate_best:
  "snd (GA_evaluate f g b) = snd (GA_evaluate_each f (population g) b)"
  by (simp add: GA_evaluate_def case_prod_beta)

lemma GA_step_best_le:
  "GA_step rand f g k b = Inr (g', k', b') \<Longrightarrow> bestGlobalFitness b' \<le> bestGlobalFitness b"
  using GA_evaluate_best_le
  by (auto simp: GA_step_def case_prod_beta split: if_splits list.splits sum.splits)

lemma PSO_step_best_le:
  "PSO_step rand f s k b = Inr (s', k', b') \<Longrightarrow> bestGlobalFitness b' \<le> bestGlobalFitness b"
  using PSO_evaluate_each_le
  by (auto simp: PSO_step_def PSO_evaluate_best case_prod_beta split: sum.splits)

lemma GA_steps_best_le:
  "GA_steps rand f m (g, k, b) = Inr (g', k', b') \<Longrightarrow> bestGlobalFitness b' \<le> bestGlobalFitness b"
proof (induction m arbitrary: g' k' b')
  case 0
  then show ?case by simp
next
  case (Suc m)
  then obtain g1 k1 b1 where 1: "GA_steps rand f m (g, k, b) = Inr (g1, k1, b1)"
    "GA_step rand f g1 k1 b1 = Inr (g', k', b')"
    by (auto split: sum.splits)
  show ?case using Suc.IH [OF 1(1)] GA_step_best_le [OF 1(2)] by (rule order_trans [rotated])
qed

lemma PSO_steps_best_le:
  "PSO_steps rand f m (s, k, b) = Inr (s', k', b') \<Longrightarrow> bestGlobalFitness b' \<le> bestGlobalFitness b"
proof (induction m arbitrary: s' k' b')
  case 0
  then show ?case by simp
next
  case (Suc m)
  then obtain s1 k1 b1 where 1: "PSO_steps rand f m (s, k, b) = Inr (s1, k1, b1)"
    "PSO_step rand f s1 k1 b1 = Inr (s', k', b')"
    by (auto split: sum.splits)
  show ?case using Suc.IH [OF 1(1)] PSO_step_best_le [OF 1(2)] by (rule order_trans [rotated])
qed

lemma algorithm_step_best_le:
  "algorithm_step rand f a k b = Inr (a', k', b') \<Longrightarrow> bestGlobalFitness b' \<le> bestGlobalFitness b"
  by (auto simp: algorithm_step_def split: algorithm.splits sum.splits
      dest: GA_step_best_le PSO_step_best_le)

lemma logResult_best: "logResult s = Inr s' \<Longrightarrow> global_best s' = global_best s"
  by (auto simp: logResult_def Let_def split: option.splits)

lemma stopSimulation_best: "stopSimulation l s = Inr s' \<Longrightarrow> global_best s' = global_best s"
  by (auto simp: stopSimulation_def Let_def split: if_splits dest: logResult_best)

lemma render_best: "global_best (render ov s) = global_best s"
  by (simp add: render_def Let_def)

lemma loop_best_le:
  assumes "loop rand s = Inr s'"
  shows "bestGlobalFitness (global_best s') \<le> bestGlobalFitness (global_best s)"
proof (cases "isRunning s")
  case False
  then show ?thesis using assms by (simp add: loop_def)
next
  case True
  then obtain a a' k' b' where a: "currentAlgorithm s = Some a"
    "algorithm_step rand (currentFunction s) a (draws s) (global_best s) = Inr (a', k', b')"
    using assms by (auto simp: loop_def split: option.splits sum.splits)
  have "global_best s' = b'"
    using assms True a
    by (auto simp: loop_def Let_def render_best split: if_splits dest!: stopSimulation_best)
  then show ?thesis using algorithm_step_best_le [OF a(2)] by simp
qed

lemmas page_defs = startSimulation_def resetSimulation_def render_def loop_def
  stopSimulation_def logResult_def captureState_def getPopulation_def positions_def
  algorithm_step_def algorithm_color_def initial_app_def initial_best_def

lemmas pso_defs = PSO_constructor_def PSO_evaluate_def PSO_step_def evaluate_particle_def
  move_particle_def update_best_def clamp_def random_range_def

text \<open>
  Claim C4.  The run-global best is \<open>(Infinity, null)\<close> when the script has loaded and
  after every reset.  One \<^verbatim>\<open>evaluate\<close> of either optimiser leaves as best fitness the
  least of the old best and the fitness values it computed, so never a greater one; the
  best changes exactly when some member's new fitness is strictly below the old best,
  and then fitness and position are those of one member.  Any number of steps of either
  optimiser, and one call of \<^verbatim>\<open>loop\<close>, never increase the best fitness.
\<close>

theorem global_best_monotone:
  "global_best (initial_app i0) = \<lparr>bestGlobalFitness = Infinity, bestGlobalPosition = None\<rparr> \<and>
   global_best (resetSimulation a0) = \<lparr>bestGlobalFitness = Infinity, bestGlobalPosition = None\<rparr> \<and>
   (let b' = snd (GA_evaluate f g b); v = (\<lambda>p. Fin (func f (pos_x p) (pos_y p))) in
      bestGlobalFitness b' = Min (insert (bestGlobalFitness b) (v ` set (population g))) \<and>
      bestGlobalFitness b' \<le> bestGlobalFitness b \<and>
      (b' \<noteq> b) = (\<exists>p \<in> set (population g). v p < bestGlobalFitness b) \<and>
      (b' \<noteq> b \<longrightarrow> (\<exists>p \<in> set (population g).
          bestGlobalFitness b' = v p \<and> bestGlobalPosition b' = Some (pos_x p, pos_y p)))) \<and>
   (let b' = snd (PSO_evaluate f s b); v = (\<lambda>p. Fin (func f (pos_x p) (pos_y p))) in
      bestGlobalFitness b' = Min (insert (bestGlobalFitness b) (v ` set (particles s))) \<and>
      bestGlobalFitness b' \<le> bestGlobalFitness b \<and>
      (b' \<noteq> b) = (\<exists>p \<in> set (particles s). v p < bestGlobalFitness b) \<and>
      (b' \<noteq> b \<longrightarrow> (\<exists>p \<in> set (particles s).
          bestGlobalFitness b' = v p \<and> bestGlobalPosition b' = Some (pos_x p, pos_y p)))) \<and>
   (GA_steps rand f m (g, k, b) = Inr (g1, k1, b1) \<longrightarrow> bestGlobalFitness b1 \<le> bestGlobalFitness b) \<and>
   (PSO_steps rand f m (s, k, b) = Inr (s2, k2, b2) \<longrightarrow> bestGlobalFitness b2 \<le> bestGlobalFitness b) \<and>
   (loop rand a = Inr a' \<longrightarrow>
      bestGlobalFitness (global_best a') \<le> bestGlobalFitness (global_best a))"
proof (intro conjI)
  show "global_best (initial_app i0) = \<lparr>bestGlobalFitness = Infinity, bestGlobalPosition = None\<rparr>"
    by (simp add: initial_app_def initial_best_def)
  show "global_best (resetSimulation a0) = \<lparr>bestGlobalFitness = Infinity, bestGlobalPosition = None\<rparr>"
    by (simp add: resetSimulation_def render_def initial_best_def Let_def)
  show "let b' = snd (GA_evaluate f g b); v = (\<lambda>p. Fin (func f (pos_x p) (pos_y p))) in
      bestGlobalFitness b' = Min (insert (bestGlobalFitness b) (v ` set (population g))) \<and>
      bestGlobalFitness b' \<le> bestGlobalFitness b \<and>
      (b' \<noteq> b) = (\<exists>p \<in> set (population g). v p < bestGlobalFitness b) \<and>
      (b' \<noteq> b \<longrightarrow> (\<exists>p \<in> set (population g).
          bestGlobalFitness b' = v p \<and> bestGlobalPosition b' = Some (pos_x p, pos_y p)))"
    unfolding Let_def GA_evaluate_best GA_evaluate_each_foldl
    using foldl_update_best_changed [of "\<lambda>p. Fin (func f (pos_x p) (pos_y p))" "\<lambda>p. (pos_x p, pos_y p)" b "population g"]
    by (simp only: foldl_update_best_Min foldl_update_best_iff) simp
  show "let b' = snd (PSO_evaluate f s b); v = (\<lambda>p. Fin (func f (pos_x p) (pos_y p))) in
      bestGlobalFitness b' = Min (insert (bestGlobalFitness b) (v ` set (particles s))) \<and>
      bestGlobalFitness b' \<le> bestGlobalFitness b \<and>
      (b' \<noteq> b) = (\<exists>p \<in> set (particles s). v p < bestGlobalFitness b) \<and>
      (b' \<noteq> b \<longrightarrow> (\<exists>p \<in> set (particles s).
          bestGlobalFitness b' = v p \<and> bestGlobalPosition b' = Some (pos_x p, pos_y p)))"
    unfolding Let_def PSO_evaluate_best PSO_evaluate_each_foldl
    using foldl_update_best_changed [of "\<lambda>p. Fin (func f (pos_x p) (pos_y p))" "\<lambda>p. (pos_x p, pos_y p)" b "particles s"]
    by (simp only: foldl_update_best_Min foldl_update_best_iff) simp
  show "GA_steps rand f m (g, k, b) = Inr (g1, k1, b1) \<longrightarrow> bestGlobalFitness b1 \<le> bestGlobalFitness b"
    using GA_steps_best_le by blast
  show "PSO_steps rand f m (s, k, b) = Inr (s2, k2, b2) \<longrightarrow> bestGlobalFitness b2 \<le> bestGlobalFitness b"
    using PSO_steps_best_le by blast
  show "loop rand a = Inr a' \<longrightarrow>
      bestGlobalFitness (global_best a') \<le> bestGlobalFitness (global_best a)"
    using loop_best_le by blast
qed

lemma example_draws_valid: "\<forall>i. 0 \<le> example_draws i \<and> example_draws i < 1"
  by (simp add: example_draws_def)

lemma sphere_bounds: "fst (bounds sphere) \<le> snd (bounds sphere)"
  by (simp add: sphere_def)

lemma example_ga_value:
  "example_ga = \<lparr>popSize = 2, mutationRate = 1 / 10, crossoverRate = 4 / 5,
        elitism = True, ga_color = ''#e74c3c'',
        population =
          [\<lparr>pos_x = 0, pos_y = - (128 / 75), fitness = Fin (16384 / 5625)\<rparr>,
           \<lparr>pos_x = - (64 / 25), pos_y = - (384 / 125), fitness = Fin (249856 / 15625)\<rparr>],
        ga_bounds = (- (128 / 25), 128 / 25)\<rparr>"
  by (simp add: example_ga_def GA_constructor_def GA_evaluate_def Let_def sphere_def sphere_func_def
     example_draws_def initial_best_def update_best_def random_range_def numeral_2_eq_2)

lemma example_pso_value:
  "example_pso = \<lparr>swarmSize = 2, w = 7 / 10, c1 = 3 / 2, c2 = 3 / 2,
        pso_color = ''#3498db'',
        particles =
          [\<lparr>pos_x = 0, pos_y = - (128 / 75), fitness = Fin (16384 / 5625),
              vx = - (1 / 2), vy = - (3 / 5), pbestX = 0,
              pbestY = - (128 / 75), pbestFit = Fin (16384 / 5625)\<rparr>,
           \<lparr>pos_x = - (256 / 75), pos_y = - (128 / 35),
              fitness = Fin (6897664 / 275625), vx = - (3 / 4),
              vy = - (7 / 9), pbestX = - (256 / 75), pbestY = - (128 / 35),
              pbestFit = Fin (6897664 / 275625)\<rparr>],
        pso_bounds = (- (128 / 25), 128 / 25)\<rparr>"
  by (simp add: example_pso_def pso_defs Let_def sphere_def sphere_func_def
     example_draws_def initial_best_def numeral_2_eq_2)

lemma example_ga_steps:
  "\<exists>g1 k1 b1. GA_steps example_draws sphere 2 (example_ga, 4, initial_best) = Inr (g1, k1, b1)"
proof -
  have "GA_invariant sphere example_ga" "popSize example_ga = 2"
    using GA_constructor_invariant [of sphere example_draws 2 "0.1" "0.8" True 0 initial_best]
    by (simp_all add: example_ga_def)
  then show ?thesis
    using GA_steps_invariant [OF example_draws_valid, of sphere example_ga 2 4 initial_best]
    by auto
qed

lemma example_pso_steps:
  "\<exists>s2 k2 b2. PSO_steps example_draws sphere 2
      (example_pso, 8, \<lparr>bestGlobalFitness = Fin (16384 / 5625), bestGlobalPosition = Some (0, - (128 / 75))\<rparr>) = Inr (s2, k2, b2)"
proof -
  have "PSO_invariant sphere example_pso \<lparr>bestGlobalFitness = Fin (16384 / 5625), bestGlobalPosition = Some (0, - (128 / 75))\<rparr>"
    by (simp add: PSO_invariant_def example_pso_value inside_def sphere_def)
  then show ?thesis
    using PSO_steps_invariant [OF sphere_bounds, of example_pso _ example_draws 2 8] by blast
qed

lemma example_start:
  "\<exists>a a'. startSimulation example_draws (initial_app example_form) = Inr a \<and>
      loop example_draws a = Inr a'"
  by (simp add: example_form_def page_defs pso_defs Let_def sphere_def sphere_func_def
     example_draws_def numeral_2_eq_2)

theorem global_best_monotone_witness:
  "snd (GA_evaluate sphere example_ga initial_best) \<noteq> initial_best \<and>
   (\<exists>p \<in> set (population example_ga).
      bestGlobalFitness (snd (GA_evaluate sphere example_ga initial_best)) = Fin (func sphere (pos_x p) (pos_y p)) \<and>
      bestGlobalPosition (snd (GA_evaluate sphere example_ga initial_best)) = Some (pos_x p, pos_y p)) \<and>
   snd (PSO_evaluate sphere example_pso initial_best) \<noteq> initial_best \<and>
   (\<exists>p \<in> set (particles example_pso).
      bestGlobalFitness (snd (PSO_evaluate sphere example_pso initial_best)) = Fin (func sphere (pos_x p) (pos_y p)) \<and>
      bestGlobalPosition (snd (PSO_evaluate sphere example_pso initial_best)) = Some (pos_x p, pos_y p)) \<and>
   (\<exists>g1 k1 b1. GA_steps example_draws sphere 2 (example_ga, 4, initial_best) = Inr (g1, k1, b1) \<and>
      bestGlobalFitness b1 \<le> bestGlobalFitness initial_best) \<and>
   (\<exists>s2 k2 b2. PSO_steps example_draws sphere 2
        (example_pso, 8, \<lparr>bestGlobalFitness = Fin (16384 / 5625), bestGlobalPosition = Some (0, - (128 / 75))\<rparr>)
        = Inr (s2, k2, b2) \<and>
      bestGlobalFitness b2 \<le> Fin (16384 / 5625)) \<and>
   (\<exists>a a'. startSimulation example_draws (initial_app example_form) = Inr a \<and>
      loop example_draws a = Inr a' \<and>
      bestGlobalFitness (global_best a') \<le> bestGlobalFitness (global_best a))"
proof -
  have 1: "\<exists>p \<in> set (population example_ga). Fin (func sphere (pos_x p) (pos_y p)) < bestGlobalFitness initial_best"
    by (auto simp: example_ga_value initial_best_def)
  have 2: "\<exists>p \<in> set (particles example_pso). Fin (func sphere (pos_x p) (pos_y p)) < bestGlobalFitness initial_best"
    by (auto simp: example_pso_value initial_best_def)
  obtain g1 k1 b1 where 3: "GA_steps example_draws sphere 2 (example_ga, 4, initial_best) = Inr (g1, k1, b1)"
    using example_ga_steps by blast
  obtain s2 k2 b2 where 4: "PSO_steps example_draws sphere 2
        (example_pso, 8, \<lparr>bestGlobalFitness = Fin (16384 / 5625), bestGlobalPosition = Some (0, - (128 / 75))\<rparr>)
        = Inr (s2, k2, b2)"
    using example_pso_steps by blast
  obtain a a' where 5: "startSimulation example_draws (initial_app example_form) = Inr a"
      "loop example_draws a = Inr a'"
    using example_start by blast
  note t1 = global_best_monotone [of example_form "initial_app example_form" sphere
      example_ga initial_best example_pso example_draws 2 4 g1 k1 b1 s2 k2 b2 a a']
  note t2 = global_best_monotone [of example_form "initial_app example_form" sphere
      example_ga "\<lparr>bestGlobalFitness = Fin (16384 / 5625), bestGlobalPosition = Some (0, - (128 / 75))\<rparr>"
      example_pso example_draws 2 8 g1 k1 b1 s2 k2 b2 a a']
  have e: "bestGlobalFitness b2 \<le> Fin (16384 / 5625)"
    using t2 4 by simp
  have a: "snd (GA_evaluate sphere example_ga initial_best) \<noteq> initial_best"
    using t1 [unfolded Let_def] 1 by blast
  have b: "snd (PSO_evaluate sphere example_pso initial_best) \<noteq> initial_best"
    using t1 [unfolded Let_def] 2 by blast
  have c: "bestGlobalFitness b1 \<le> bestGlobalFitness initial_best"
    using t1 3 by blast
  have d: "bestGlobalFitness (global_best a') \<le> bestGlobalFitness (global_best a)"
    using t1 5 by blast
  have a': "\<exists>p \<in> set (population example_ga).
      bestGlobalFitness (snd (GA_evaluate sphere example_ga initial_best)) = Fin (func sphere (pos_x p) (pos_y p)) \<and>
      bestGlobalPosition (snd (GA_evaluate sphere example_ga initial_best)) = Some (pos_x p, pos_y p)"
    using t1 [unfolded Let_def] a by blast
  have b': "\<exists>p \<in> set (particles example_pso).
      bestGlobalFitness (snd (PSO_evaluate sphere example_pso initial_best)) = Fin (func sphere (pos_x p) (pos_y p)) \<and>
      bestGlobalPosition (snd (PSO_evaluate sphere example_pso initial_best)) = Some (pos_x p, pos_y p)"
    using t1 [unfolded Let_def] b by blast
  show ?thesis
    using a a' b b' c d e 3 4 5 by blast
qed

section \<open>Claims about the swarm step and the Gaussian draw\<close>

lemma move_particle_fields:
  "vx (move_particle s gb r1 r2 p) =
     w s * vx p + c1 s * r1 * (pbestX p - pos_x p) + c2 s * r2 * (fst gb - pos_x p)"
  "vy (move_particle s gb r1 r2 p) =
     w s * vy p + c1 s * r1 * (pbestY p - pos_y p) + c2 s * r2 * (snd gb - pos_y p)"
  "pos_x (move_particle s gb r1 r2 p) =
     clamp (pso_bounds s) (pos_x p + vx (move_particle s gb r1 r2 p))"
  "pos_y (move_particle s gb r1 r2 p) =
     clamp (pso_bounds s) (pos_y p + vy (move_particle s gb r1 r2 p))"
  by (simp_all add: move_particle_def Let_def)

text \<open>
  Claim C7.  When the global best position \<open>gb\<close> is defined, \<^verbatim>\<open>step\<close> of a swarm returns
  a swarm of the same size and has made two draws per particle.  Particle \<open>i\<close> gets the
  draws \<open>r1\<close> and \<open>r2\<close> at the indices \<open>k + 2 i\<close> and \<open>k + 2 i + 1\<close>, used by no other
  particle and by no other step; its new velocity is
  \<open>w * v + c1 * r1 * (pbest - x) + c2 * r2 * (gb - x)\<close> in each coordinate, computed from
  its own old fields, and its new position is the old one plus the new velocity, clamped
  into the bounds.  The velocity is stored as computed: where the sum leaves ordered
  bounds the position is the bound it crossed and the velocity keeps its value.
\<close>

theorem PSO_step_moves_each_particle:
  assumes "bestGlobalPosition b = Some gb"
  shows "\<exists>s' b'. PSO_step rand f s k b = Inr (s', k + 2 * length (particles s), b') \<and>
     length (particles s') = length (particles s) \<and>
     (\<forall>i < length (particles s).
        (let p = particles s ! i; p' = particles s' ! i;
             r1 = rand (k + 2 * i); r2 = rand (k + 2 * i + 1);
             lo = fst (pso_bounds s); hi = snd (pso_bounds s)
         in vx p' = w s * vx p + c1 s * r1 * (pbestX p - pos_x p) + c2 s * r2 * (fst gb - pos_x p) \<and>
            vy p' = w s * vy p + c1 s * r1 * (pbestY p - pos_y p) + c2 s * r2 * (snd gb - pos_y p) \<and>
            pos_x p' = max lo (min hi (pos_x p + vx p')) \<and>
            pos_y p' = max lo (min hi (pos_y p + vy p')) \<and>
            (lo \<le> hi \<and> hi < pos_x p + vx p' \<longrightarrow> pos_x p' = hi) \<and>
            (lo \<le> hi \<and> pos_x p + vx p' < lo \<longrightarrow> pos_x p' = lo) \<and>
            (lo \<le> hi \<and> hi < pos_y p + vy p' \<longrightarrow> pos_y p' = hi) \<and>
            (lo \<le> hi \<and> pos_y p + vy p' < lo \<longrightarrow> pos_y p' = lo)))"
proof -
  define ps where "ps = map (\<lambda>i. move_particle s gb (rand (k + 2 * i)) (rand (k + 2 * i + 1)) (particles s ! i)) [0..<length (particles s)]"
  define r where "r = PSO_evaluate f (s\<lparr>particles := ps\<rparr>) b"
  have st: "PSO_step rand f s k b = Inr (fst r, k + 2 * length (particles s), snd r)"
    by (simp add: PSO_step_def move_particles_Some [OF assms] ps_def r_def case_prod_beta)
  have pr: "particles (fst r) = map (evaluate_particle f) ps"
    by (simp add: r_def PSO_evaluate_particles)
  have len: "length (particles (fst r)) = length (particles s)"
    by (simp add: pr ps_def)
  have "\<forall>i < length (particles s).
        (let p = particles s ! i; p' = particles (fst r) ! i;
             r1 = rand (k + 2 * i); r2 = rand (k + 2 * i + 1);
             lo = fst (pso_bounds s); hi = snd (pso_bounds s)
         in vx p' = w s * vx p + c1 s * r1 * (pbestX p - pos_x p) + c2 s * r2 * (fst gb - pos_x p) \<and>
            vy p' = w s * vy p + c1 s * r1 * (pbestY p - pos_y p) + c2 s * r2 * (snd gb - pos_y p) \<and>
            pos_x p' = max lo (min hi (pos_x p + vx p')) \<and>
            pos_y p' = max lo (min hi (pos_y p + vy p')) \<and>
            (lo \<le> hi \<and> hi < pos_x p + vx p' \<longrightarrow> pos_x p' = hi) \<and>
            (lo \<le> hi \<and> pos_x p + vx p' < lo \<longrightarrow> pos_x p' = lo) \<and>
            (lo \<le> hi \<and> hi < pos_y p + vy p' \<longrightarrow> pos_y p' = hi) \<and>
            (lo \<le> hi \<and> pos_y p + vy p' < lo \<longrightarrow> pos_y p' = lo))"
  proof (intro allI impI)
    fix i assume i: "i < length (particles s)"
    have "particles (fst r) ! i =
      evaluate_particle f (move_particle s gb (rand (k + 2 * i)) (rand (k + 2 * i + 1)) (particles s ! i))"
      using i by (simp add: pr ps_def)
    then show "let p = particles s ! i; p' = particles (fst r) ! i;
             r1 = rand (k + 2 * i); r2 = rand (k + 2 * i + 1);
             lo = fst (pso_bounds s); hi = snd (pso_bounds s)
         in vx p' = w s * vx p + c1 s * r1 * (pbestX p - pos_x p) + c2 s * r2 * (fst gb - pos_x p) \<and>
            vy p' = w s * vy p + c1 s * r1 * (pbestY p - pos_y p) + c2 s * r2 * (snd gb - pos_y p) \<and>
            pos_x p' = max lo (min hi (pos_x p + vx p')) \<and>
            pos_y p' = max lo (min hi (pos_y p + vy p')) \<and>
            (lo \<le> hi \<and> hi < pos_x p + vx p' \<longrightarrow> pos_x p' = hi) \<and>
            (lo \<le> hi \<and> pos_x p + vx p' < lo \<longrightarrow> pos_x p' = lo) \<and>
            (lo \<le> hi \<and> hi < pos_y p + vy p' \<longrightarrow> pos_y p' = hi) \<and>
            (lo \<le> hi \<and> pos_y p + vy p' < lo \<longrightarrow> pos_y p' = lo)"
      by (simp add: Let_def evaluate_particle_fields move_particle_fields clamp_def)
  qed
  then show ?thesis using st len by blast
qed

theorem PSO_step_moves_each_particle_witness:
  "\<exists>s' b'. PSO_step example_draws sphere example_pso 8
       \<lparr>bestGlobalFitness = Fin (16384 / 5625), bestGlobalPosition = Some (0, - (128 / 75))\<rparr>
       = Inr (s', 12, b') \<and>
     length (particles s') = 2 \<and>
     vx (particles s' ! 1) = - (341 / 2600) \<and> vy (particles s' ! 1) = - (13079 / 40950) \<and>
     pos_x (particles s' ! 1) = - (27647 / 7800) \<and> pos_y (particles s' ! 1) = - (162839 / 40950)"
proof -
  obtain s' b' where st: "PSO_step example_draws sphere example_pso 8
       \<lparr>bestGlobalFitness = Fin (16384 / 5625), bestGlobalPosition = Some (0, - (128 / 75))\<rparr>
       = Inr (s', 8 + 2 * length (particles example_pso), b')"
    "length (particles s') = length (particles example_pso)"
    "\<forall>i < length (particles example_pso).
        (let p = particles example_pso ! i; p' = particles s' ! i;
             r1 = example_draws (8 + 2 * i); r2 = example_draws (8 + 2 * i + 1);
             lo = fst (pso_bounds example_pso); hi = snd (pso_bounds example_pso)
         in vx p' = w example_pso * vx p + c1 example_pso * r1 * (pbestX p - pos_x p)
                      + c2 example_pso * r2 * (fst (0, - (128 / 75)) - pos_x p) \<and>
            vy p' = w example_pso * vy p + c1 example_pso * r1 * (pbestY p - pos_y p)
                      + c2 example_pso * r2 * (snd (0 :: real, - (128 / 75) :: real) - pos_y p) \<and>
            pos_x p' = max lo (min hi (pos_x p + vx p')) \<and>
            pos_y p' = max lo (min hi (pos_y p + vy p')) \<and>
            (lo \<le> hi \<and> hi < pos_x p + vx p' \<longrightarrow> pos_x p' = hi) \<and>
            (lo \<le> hi \<and> pos_x p + vx p' < lo \<longrightarrow> pos_x p' = lo) \<and>
            (lo \<le> hi \<and> hi < pos_y p + vy p' \<longrightarrow> pos_y p' = hi) \<and>
            (lo \<le> hi \<and> pos_y p + vy p' < lo \<longrightarrow> pos_y p' = lo))"
    using PSO_step_moves_each_particle [of
        "\<lparr>bestGlobalFitness = Fin (16384 / 5625), bestGlobalPosition = Some (0, - (128 / 75))\<rparr>"
        "(0, - (128 / 75))" example_draws sphere example_pso 8]
    by auto
  have "let p = particles example_pso ! 1; p' = particles s' ! 1;
             r1 = example_draws (8 + 2 * 1); r2 = example_draws (8 + 2 * 1 + 1);
             lo = fst (pso_bounds example_pso); hi = snd (pso_bounds example_pso)
         in vx p' = w example_pso * vx p + c1 example_pso * r1 * (pbestX p - pos_x p)
                      + c2 example_pso * r2 * (fst (0, - (128 / 75)) - pos_x p) \<and>
            vy p' = w example_pso * vy p + c1 example_pso * r1 * (pbestY p - pos_y p)
                      + c2 example_pso * r2 * (snd (0 :: real, - (128 / 75) :: real) - pos_y p) \<and>
            pos_x p' = max lo (min hi (pos_x p + vx p')) \<and>
            pos_y p' = max lo (min hi (pos_y p + vy p'))"
    using st(3) by (simp add: example_pso_value Let_def)
  then have "vx (particles s' ! 1) = - (341 / 2600) \<and> vy (particles s' ! 1) = - (13079 / 40950) \<and>
     pos_x (particles s' ! 1) = - (27647 / 7800) \<and> pos_y (particles s' ! 1) = - (162839 / 40950)"
    by (simp add: example_pso_value Let_def example_draws_def)
  then show ?thesis using st(1,2) by (simp add: example_pso_value)
qed

lemma gaussianRandom_value:
  assumes "0 \<le> r1" "r1 < 1"
  shows "gaussianRandom mean stdev r1 r2 =
           Some (sqrt (- 2 * ln (1 - r1)) * cos (2 * pi * r2) * stdev + mean)"
proof -
  have u: "0 < 1 - r1" "1 - r1 \<le> 1" using assms by auto
  then have "ln (1 - r1) \<le> 0" by simp
  then have "0 \<le> - 2.0 * ln (1 - r1)" by simp
  then show ?thesis using u by (simp add: gaussianRandom_def js_log_def js_sqrt_def Let_def)
qed

lemma gaussianRandom_at_one: "gaussianRandom mean stdev 1 r2 = None"
  by (simp add: gaussianRandom_def js_log_def)

lemma mutate_coordinate_returns:
  assumes "0 \<le> rand (k + 1)" "rand (k + 1) < 1"
  shows "\<exists>v' k'. mutate_coordinate rand g v k = Inr (v', k')"
  using gaussianRandom_value [OF assms] by (simp add: mutate_coordinate_def Let_def)

text \<open>
  Claim C10.  For draws \<open>r1\<close> and \<open>r2\<close> in \<open>[0, 1)\<close> the argument \<open>u = 1 - r1\<close> of the
  logarithm lies in \<open>(0, 1]\<close>, so the logarithm is a finite number that is not positive,
  the square root is taken of a non-negative number, and \<^verbatim>\<open>gaussianRandom\<close> returns the
  finite number \<open>sqrt (- 2 ln u) * cos (2 pi r2) * stdev + mean\<close>.  With all draws of the
  stream in \<open>[0, 1)\<close>, \<^verbatim>\<open>mutate\<close> therefore returns a member with finite coordinates.
\<close>

theorem gaussianRandom_finite_result:
  assumes "0 \<le> r1" and "r1 < 1" and "0 \<le> r2" and "r2 < 1"
  shows "0 < 1 - r1 \<and> 1 - r1 \<le> 1 \<and>
         js_log (1 - r1) = Some (ln (1 - r1)) \<and> ln (1 - r1) \<le> 0 \<and>
         js_sqrt (- 2.0 * ln (1 - r1)) = Some (sqrt (- 2 * ln (1 - r1))) \<and>
         gaussianRandom mean stdev r1 r2 =
           Some (sqrt (- 2 * ln (1 - r1)) * cos (2 * pi * r2) * stdev + mean) \<and>
         ((\<forall>i. 0 \<le> rand i \<and> rand i < 1) \<longrightarrow>
            (\<exists>ind' k'. mutate rand g ind k = Inr (ind', k')))"
proof -
  have u: "0 < 1 - r1" "1 - r1 \<le> 1" using assms by auto
  then have l: "ln (1 - r1) \<le> 0" by simp
  then have q: "0 \<le> - 2.0 * ln (1 - r1)" by simp
  have m: "(\<forall>i. 0 \<le> rand i \<and> rand i < 1) \<longrightarrow> (\<exists>ind' k'. mutate rand g ind k = Inr (ind', k'))"
  proof
    assume r: "\<forall>i. 0 \<le> rand i \<and> rand i < 1"
    obtain v1 k1 where 1: "mutate_coordinate rand g (pos_x ind) k = Inr (v1, k1)"
      using mutate_coordinate_returns [of rand k g "pos_x ind"] r by blast
    obtain v2 k2 where 2: "mutate_coordinate rand g (pos_y ind) k1 = Inr (v2, k2)"
      using mutate_coordinate_returns [of rand k1 g "pos_y ind"] r by blast
    show "\<exists>ind' k'. mutate rand g ind k = Inr (ind', k')"
      using 1 2 by (simp add: mutate_def)
  qed
  show ?thesis
    using u l q m gaussianRandom_value [OF assms(1,2)]
    by (simp add: js_log_def js_sqrt_def)
qed

theorem gaussianRandom_finite_result_witness:
  "js_log (1 - 0) = Some (ln (1 - 0)) \<and>
   gaussianRandom 0 1 0 (1 / 4) = Some 0 \<and>
   gaussianRandom 0 (1 / 2) (1 / 2) 0 = Some (sqrt (2 * ln 2) / 2) \<and>
   (\<exists>ind' k'. mutate example_draws example_ga \<lparr>pos_x = 0, pos_y = 0, fitness = Infinity\<rparr> 0 = Inr (ind', k'))"
proof -
  have 1: "gaussianRandom 0 1 0 (1 / 4) = Some 0"
    using gaussianRandom_finite_result [of 0 "1 / 4" 0 1 example_draws example_ga
        "\<lparr>pos_x = 0, pos_y = 0, fitness = Infinity\<rparr>" 0]
    by simp
  have 2: "gaussianRandom 0 (1 / 2) (1 / 2) 0 = Some (sqrt (2 * ln 2) / 2)"
    using gaussianRandom_finite_result [of "1 / 2" 0 0 "1 / 2" example_draws example_ga
        "\<lparr>pos_x = 0, pos_y = 0, fitness = Infinity\<rparr>" 0]
    by (simp add: ln_div)
  have 3: "\<exists>ind' k'. mutate example_draws example_ga \<lparr>pos_x = 0, pos_y = 0, fitness = Infinity\<rparr> 0 = Inr (ind', k')"
    using gaussianRandom_finite_result [of 0 "1 / 4" 0 1 example_draws example_ga
        "\<lparr>pos_x = 0, pos_y = 0, fitness = Infinity\<rparr>" 0] example_draws_valid
    by simp
  show ?thesis using 1 2 3 by (simp add: js_log_def)
qed

section \<open>Claims about the log and the replay\<close>

lemmas example_defs = example_form_def page_defs pso_defs Let_def sphere_def sphere_func_def
  example_draws_def numeral_2_eq_2 and_then_def

text \<open>
  Claim C3.  On the example form, Run and then Stop log the run under id 1 with a history
  of two snapshots.  A second Run resumes the stopped optimiser, and its first step
  appends a third snapshot to the history logged under id 1: the entry holds the array
  \<^verbatim>\<open>currentRunHistory\<close> itself, not a copy of it.
\<close>

theorem logged_history_grows_on_resume:
  "logged_history 1 example_stopped =
     Some [[(0, - (128 / 75)), (- (256 / 75), - (128 / 35))],
           [(- (7 / 20), - (319 / 150)), (- (27647 / 7800), - (162839 / 40950))]] \<and>
   logged_history 1 example_resumed =
     Some [[(0, - (128 / 75)), (- (256 / 75), - (128 / 35))],
           [(- (7 / 20), - (319 / 150)), (- (27647 / 7800), - (162839 / 40950))],
           [(- (209 / 400), - (7001 / 3000)), (- (70251487 / 21216000), - (442181111 / 111384000))]]"
  by (simp add: logged_history_def example_resumed_def example_stopped_def example_defs)





text \<open>
  Claim C2, as stated, fails.  A population size of 1 is rejected by the check that the
  specification describes, but the constructor of the script has no check: on the sphere
  function it returns an optimiser with one member, and \<^verbatim>\<open>step\<close> runs on it.
\<close>

theorem GA_of_one_member_is_constructed:
  "spec_createOptimizer_ga 1 (1 / 10) (4 / 5) = InvalidConfiguration \<and>
   GA_constructor example_draws sphere 1 (1 / 10) (4 / 5) True 0 initial_best =
     (\<lparr>popSize = 1, mutationRate = 1 / 10, crossoverRate = 4 / 5, elitism = True,
        ga_color = ''#e74c3c'',
        population = [\<lparr>pos_x = 0, pos_y = - (128 / 75), fitness = Fin (16384 / 5625)\<rparr>],
        ga_bounds = (- (128 / 25), 128 / 25)\<rparr>,
      2,
      \<lparr>bestGlobalFitness = Fin (16384 / 5625), bestGlobalPosition = Some (0, - (128 / 75))\<rparr>) \<and>
   GA_step example_draws sphere
     \<lparr>popSize = 1, mutationRate = 1 / 10, crossoverRate = 4 / 5, elitism = True,
        ga_color = ''#e74c3c'',
        population = [\<lparr>pos_x = 0, pos_y = - (128 / 75), fitness = Fin (16384 / 5625)\<rparr>],
        ga_bounds = (- (128 / 25), 128 / 25)\<rparr>
     2 \<lparr>bestGlobalFitness = Fin (16384 / 5625), bestGlobalPosition = Some (0, - (128 / 75))\<rparr> =
   Inr (\<lparr>popSize = 1, mutationRate = 1 / 10, crossoverRate = 4 / 5, elitism = True,
        ga_color = ''#e74c3c'',
        population = [\<lparr>pos_x = 0, pos_y = - (128 / 75), fitness = Fin (16384 / 5625)\<rparr>],
        ga_bounds = (- (128 / 25), 128 / 25)\<rparr>,
      2,
      \<lparr>bestGlobalFitness = Fin (16384 / 5625), bestGlobalPosition = Some (0, - (128 / 75))\<rparr>)"
  by (simp add: spec_createOptimizer_ga_def GA_constructor_def GA_evaluate_def GA_step_def
      breed.simps Let_def sphere_def sphere_func_def example_draws_def initial_best_def
      update_best_def random_range_def)

text \<open>
  Claim C2, amended.  The constructor of the genetic optimiser checks nothing and cannot
  fail: for every integer population size \<open>n\<close>, below 2 or not, and any rates it returns
  an optimiser that holds the given parameters and the bounds of the current function,
  and whose population has exactly \<open>max n 0\<close> members, each evaluated (its fitness is
  the value of the current function at its position) and all sorted by fitness, after
  two draws per member.
\<close>

theorem GA_constructor_always_constructs:
  "(let (g, k', b') = GA_constructor rand f n mr cr el k b
    in popSize g = n \<and> mutationRate g = mr \<and> crossoverRate g = cr \<and> elitism g = el \<and>
       ga_bounds g = bounds f \<and> length (population g) = nat n \<and>
       list_all (\<lambda>p. fitness p = Fin (func f (pos_x p) (pos_y p))) (population g) \<and>
       sorted (map fitness (population g)) \<and> k' = k + 2 * nat n)"
  using GA_evaluate_fresh
  by (simp add: GA_constructor_def Let_def case_prod_beta GA_evaluate_fields GA_evaluate_length
      GA_evaluate_sorted init_population_length list_all_iff)

section \<open>Claims about the benchmark functions\<close>

text \<open>
  The value of the Schwefel function at its marker needs the sine of the square root of
  420.9687 to nine decimals.  The sine of a rational near a 81st of that root comes from
  six terms of its series; four triplings of the angle, each rounded to fifteen
  decimals, carry it to the sine of a rational within \<open>10\<^sup>-\<^sup>9\<close> of the root.
\<close>

lemma sin_triple: "sin (3 * x) = 3 * sin x - 4 * sin x ^ 3" for x :: real
proof -
  have "sin (3 * x) = sin (2 * x + x)" by simp
  also have "\<dots> = 2 * sin x * (cos x)\<^sup>2 + ((cos x)\<^sup>2 - (sin x)\<^sup>2) * sin x"
    by (simp only: sin_add sin_double cos_double) (simp add: power2_eq_square)
  also have "\<dots> = 2 * sin x * (1 - (sin x)\<^sup>2) + ((1 - (sin x)\<^sup>2) - (sin x)\<^sup>2) * sin x"
    by (simp only: cos_squared_eq)
  also have "\<dots> = 3 * sin x - 4 * sin x ^ 3"
    by (simp add: power2_eq_square power3_eq_cube algebra_simps)
  finally show ?thesis .
qed

lemma sin_lipschitz: "\<bar>sin x - sin y\<bar> \<le> \<bar>x - y\<bar>" for x y :: real
proof -
  have "\<bar>sin x - sin y\<bar> = 2 * \<bar>sin ((x - y) / 2)\<bar> * \<bar>cos ((x + y) / 2)\<bar>"
    by (simp add: sin_diff_sin abs_mult)
  also have "\<dots> \<le> 2 * \<bar>(x - y) / 2\<bar> * 1"
    by (intro mult_mono mult_left_mono abs_sin_x_le_abs_x) auto
  finally show ?thesis by simp
qed

lemma triple_step:
  fixes x S e :: real
  assumes "\<bar>sin x - S\<bar> \<le> e" and "\<bar>S\<bar> \<le> 1"
  shows "\<bar>sin (3 * x) - (3 * S - 4 * S ^ 3)\<bar> \<le> 9 * e"
proof -
  define u where "u = sin x"
  define q where "q = u\<^sup>2 + u * S + S\<^sup>2"
  have u: "\<bar>u\<bar> \<le> 1" by (simp add: u_def)
  have "q = (u + S / 2)\<^sup>2 + 3 / 4 * S\<^sup>2"
    by (simp add: q_def power2_eq_square algebra_simps)
  then have q0: "0 \<le> q" by simp
  have "u\<^sup>2 \<le> 1" "S\<^sup>2 \<le> 1" using u assms(2) by (simp_all add: abs_square_le_1)
  moreover have "u * S \<le> \<bar>u\<bar> * \<bar>S\<bar>" by (metis abs_ge_self abs_mult)
  moreover have "\<bar>u\<bar> * \<bar>S\<bar> \<le> 1 * 1" using u assms(2) by (intro mult_mono) auto
  ultimately have q3: "q \<le> 3" by (simp add: q_def)
  have "sin (3 * x) - (3 * S - 4 * S ^ 3) = (u - S) * (3 - 4 * q)"
    unfolding sin_triple u_def q_def
    by (simp add: power2_eq_square power3_eq_cube algebra_simps)
  then have "\<bar>sin (3 * x) - (3 * S - 4 * S ^ 3)\<bar> = \<bar>u - S\<bar> * \<bar>3 - 4 * q\<bar>"
    by (simp add: abs_mult)
  also have "\<dots> \<le> e * 9"
    using assms(1) q0 q3 by (intro mult_mono) (auto simp: u_def)
  finally show ?thesis by simp
qed

lemma triple_round:
  fixes x S D e r :: real
  assumes "\<bar>sin x - S\<bar> \<le> e" and "\<bar>S\<bar> \<le> 1" and "\<bar>(3 * S - 4 * S ^ 3) - D\<bar> \<le> r"
  shows "\<bar>sin (3 * x) - D\<bar> \<le> 9 * e + r"
  using triple_step [OF assms(1,2)] assms(3) by linarith

lemma sin_partial_sum:
  "(\<Sum>m<12. sin_coeff m * x ^ m) =
     x - x ^ 3 / 6 + x ^ 5 / 120 - x ^ 7 / 5040 + x ^ 9 / 362880 - x ^ 11 / 39916800"
  for x :: real
proof -
  have "{..<12::nat} = {0, 1, 2, 3, 4, 5, 6, 7, 8, 9, 10, 11}" by (auto, arith)
  then show ?thesis
    by (simp add: sin_coeff_def fact_numeral)
qed

lemma sin_base:
  "\<bar>sin (25330273803 / 100000000000 :: real) - 125301333995007 / 500000000000000\<bar> \<le> 1 / 10 ^ 15"
proof -
  have m: "\<bar>sin (25330273803 / 100000000000 :: real) -
          (\<Sum>m<12. sin_coeff m * (25330273803 / 100000000000) ^ m)\<bar>
        \<le> inverse (fact 12) * \<bar>25330273803 / 100000000000 :: real\<bar> ^ 12"
    by (rule Maclaurin_sin_bound)
  have p: "\<bar>(\<Sum>m<12. sin_coeff m * (25330273803 / 100000000000 :: real) ^ m)
             - 125301333995007 / 500000000000000\<bar>
           + inverse (fact 12) * \<bar>25330273803 / 100000000000 :: real\<bar> ^ 12 \<le> 1 / 10 ^ 15"
    unfolding sin_partial_sum by (simp add: fact_numeral power_divide)
  show ?thesis using m p by linarith
qed

lemma sin_1:
  "\<bar>sin (3 * (25330273803 / 100000000000) :: real) - 172213728118959 / 250000000000000\<bar> \<le> 1 / 10 ^ 14"
proof -
  have "\<bar>sin (3 * (25330273803 / 100000000000) :: real) - 172213728118959 / 250000000000000\<bar>
        \<le> 9 * (1 / 10 ^ 15) + 1 / 10 ^ 15"
    by (rule triple_round [OF sin_base]) (simp_all add: power_divide)
  then show ?thesis by simp
qed

lemma sin_2:
  "\<bar>sin (3 * (3 * (25330273803 / 100000000000)) :: real) - 759060000529807 / 1000000000000000\<bar> \<le> 1 / 10 ^ 13"
proof -
  have "\<bar>sin (3 * (3 * (25330273803 / 100000000000)) :: real) - 759060000529807 / 1000000000000000\<bar>
        \<le> 9 * (1 / 10 ^ 14) + 1 / 10 ^ 15"
    by (rule triple_round [OF sin_1]) (simp_all add: power_divide)
  then show ?thesis by simp
qed

lemma sin_3:
  "\<bar>sin (3 * (3 * (3 * (25330273803 / 100000000000))) :: real) - 527783270816637 / 1000000000000000\<bar> \<le> 1 / 10 ^ 12"
proof -
  have "\<bar>sin (3 * (3 * (3 * (25330273803 / 100000000000))) :: real) - 527783270816637 / 1000000000000000\<bar>
        \<le> 9 * (1 / 10 ^ 13) + 1 / 10 ^ 15"
    by (rule triple_round [OF sin_2]) (simp_all add: power_divide)
  then show ?thesis by simp
qed

lemma sin_4:
  "\<bar>sin (3 * (3 * (3 * (3 * (25330273803 / 100000000000)))) :: real) - 995282754422817 / 1000000000000000\<bar> \<le> 1 / 10 ^ 11"
proof -
  have "\<bar>sin (3 * (3 * (3 * (3 * (25330273803 / 100000000000)))) :: real) - 995282754422817 / 1000000000000000\<bar>
        \<le> 9 * (1 / 10 ^ 12) + 1 / 10 ^ 15"
    by (rule triple_round [OF sin_3]) (simp_all add: power_divide)
  then show ?thesis by simp
qed

lemma sqrt_bounds:
  "\<bar>sqrt (420.9687 :: real) - 2051752178043 / 100000000000\<bar> \<le> 1 / 10 ^ 9"
proof -
  have "(2051752178043 / 100000000000 - 1 / 10 ^ 9 :: real)\<^sup>2 \<le> 420.9687"
    by (simp add: power2_eq_square)
  then have lo: "2051752178043 / 100000000000 - 1 / 10 ^ 9 \<le> sqrt (420.9687 :: real)"
    by (rule real_le_rsqrt)
  have "(420.9687 :: real) \<le> (2051752178043 / 100000000000 + 1 / 10 ^ 9)\<^sup>2"
    by (simp add: power2_eq_square)
  then have hi: "sqrt (420.9687 :: real) \<le> 2051752178043 / 100000000000 + 1 / 10 ^ 9"
    by (intro real_le_lsqrt) simp_all
  show ?thesis using lo hi by linarith
qed

lemma sin_sqrt_bounds:
  "\<bar>sin (sqrt (420.9687 :: real)) - 995282754422817 / 1000000000000000\<bar> \<le> 2 / 10 ^ 9"
proof -
  have a: "3 * (3 * (3 * (3 * (25330273803 / 100000000000)))) = (2051752178043 / 100000000000 :: real)"
    by simp
  have "\<bar>sqrt (420.9687 :: real) - 2051752178043 / 100000000000\<bar> \<le> 1 / 1000000000"
    using sqrt_bounds by simp
  then have 1: "\<bar>sin (sqrt (420.9687 :: real)) - sin (2051752178043 / 100000000000)\<bar> \<le> 1 / 1000000000"
    using sin_lipschitz [of "sqrt 420.9687" "2051752178043 / 100000000000"]
    by (rule order_trans [rotated])
  have "\<bar>sin (2051752178043 / 100000000000 :: real) - 995282754422817 / 1000000000000000\<bar> \<le> 1 / 10 ^ 11"
    using sin_4 unfolding a .
  then have 2: "\<bar>sin (2051752178043 / 100000000000 :: real) - 995282754422817 / 1000000000000000\<bar> \<le> 1 / 100000000000"
    by simp
  have "\<bar>sin (sqrt (420.9687 :: real)) - 995282754422817 / 1000000000000000\<bar> \<le> 2 / 1000000000"
    using 1 2 by linarith
  then show ?thesis by simp
qed

lemma schwefel_at_marker:
  "2 / 10 ^ 5 < schwefel_func 420.9687 420.9687 \<and> schwefel_func 420.9687 420.9687 < 3 / 10 ^ 5"
proof -
  have "schwefel_func 420.9687 420.9687 = 418.9829 * 2 - 2 * 420.9687 * sin (sqrt 420.9687)"
    by (simp add: schwefel_func_def)
  moreover have "\<bar>sin (sqrt (420.9687 :: real)) - 995282754422817 / 1000000000000000\<bar> \<le> 2 / 1000000000"
    using sin_sqrt_bounds by simp
  then have "sin (sqrt (420.9687 :: real)) \<le> 995282754422817 / 1000000000000000 + 2 / 1000000000"
    "995282754422817 / 1000000000000000 - 2 / 1000000000 \<le> sin (sqrt (420.9687 :: real))"
    by linarith+
  ultimately show ?thesis by simp
qed

lemma rosenbrock_zero: "rosenbrock_func 1 1 = 0"
  by (simp add: rosenbrock_func_def)

text \<open>
  Claim C1, as stated, fails.  For the Rosenbrock function the marker of the global
  minimum is \<open>(0, 0)\<close>, where the function is 1 (it is 0 at \<open>(1, 1)\<close>); and the Schwefel
  function is positive, not 0, at its marker \<open>(420.9687, 420.9687)\<close>.
\<close>

theorem marker_value_is_not_zero:
  "marker rosenbrock = (0, 0) \<and> func rosenbrock 0 0 = 1 \<and> globalMin rosenbrock = 0 \<and>
   marker schwefel = (420.9687, 420.9687) \<and> 0 < func schwefel 420.9687 420.9687 \<and>
   globalMin schwefel = 0"
  using schwefel_at_marker
  by (simp add: marker_def rosenbrock_def rosenbrock_func_def schwefel_def)

text \<open>
  Claim C1, amended.  In exact arithmetic the Sphere, Rastrigin and Ackley functions are
  0 at their marker \<open>(0, 0)\<close>, and the Schwefel function at its marker
  \<open>(420.9687, 420.9687)\<close> lies strictly between 0.00002 and 0.00003.
\<close>

theorem catalog_values_at_marker:
  "marker sphere = (0, 0) \<and> func sphere 0 0 = 0 \<and>
   marker rastrigin = (0, 0) \<and> func rastrigin 0 0 = 0 \<and>
   marker ackley = (0, 0) \<and> func ackley 0 0 = 0 \<and>
   marker schwefel = (420.9687, 420.9687) \<and>
   2 / 10 ^ 5 < func schwefel 420.9687 420.9687 \<and> func schwefel 420.9687 420.9687 < 3 / 10 ^ 5"
  using schwefel_at_marker
  by (simp add: marker_def sphere_def sphere_func_def rastrigin_def rastrigin_func_def
      ackley_def ackley_func_def schwefel_def)

end
